theory Spec2Isabelle
  imports Main "HOL-Library.Word"
begin

section \<open>Bytes, slices and the library calls the extractors use\<close>

text \<open>
  A Go \<open>[]byte\<close> is a list of 8-bit words. Lengths and indices are Go \<open>int\<close>s, modelled as
  \<open>int\<close> (no chunk is anywhere near \<open>2^63\<close> bytes long). A slice expression with indices out
  of range is a run-time panic, so \<open>slice\<close> returns a sum. Chunks come from
  \<open>make([]byte, n)\<close>, whose capacity is its length.
\<close>

type_synonym byte = "8 word"
type_synonym bytes = "byte list"

datatype panic = SliceBoundsOutOfRange

text \<open>\<open>s[lo:hi]\<close>\<close>

definition slice :: "bytes \<Rightarrow> int \<Rightarrow> int \<Rightarrow> panic + bytes" where
  "slice s lo hi =
     (if 0 \<le> lo \<and> lo \<le> hi \<and> hi \<le> int (length s)
      then Inr (take (nat (hi - lo)) (drop (nat lo) s))
      else Inl SliceBoundsOutOfRange)"

text \<open>\<open>s[i:i+len(sep)] == sep\<close>, for an \<open>i\<close> with \<open>i + len(sep) \<le> len(s)\<close>.\<close>

definition has_at :: "bytes \<Rightarrow> bytes \<Rightarrow> nat \<Rightarrow> bool" where
  "has_at s sep i = (take (length sep) (drop i s) = sep)"

text \<open>
  \<open>bytes.Index(s, sep)\<close>: the index of the first instance of \<open>sep\<close> in \<open>s\<close>, or \<open>-1\<close>.
  \<open>bytes.LastIndex(s, sep)\<close>: the index of the last instance, or \<open>-1\<close>.
\<close>

definition bytes_Index :: "bytes \<Rightarrow> bytes \<Rightarrow> int" where
  "bytes_Index s sep =
     (if length s < length sep then -1
      else case List.find (has_at s sep) [0 ..< Suc (length s - length sep)] of
             None \<Rightarrow> -1 | Some i \<Rightarrow> int i)"

definition bytes_LastIndex :: "bytes \<Rightarrow> bytes \<Rightarrow> int" where
  "bytes_LastIndex s sep =
     (if length s < length sep then -1
      else case List.find (has_at s sep) (rev [0 ..< Suc (length s - length sep)]) of
             None \<Rightarrow> -1 | Some i \<Rightarrow> int i)"

text \<open>\<open>binary.LittleEndian.Uint64\<close> and \<open>Uint32\<close>, as the unsigned value.\<close>

fun le_uint :: "bytes \<Rightarrow> nat" where
  "le_uint [] = 0"
| "le_uint (b # bs) = unat b + 256 * le_uint bs"

text \<open>\<open>int(x)\<close> of a \<open>uint64\<close> on a 64-bit platform: two's complement.\<close>

definition int_of_uint64 :: "nat \<Rightarrow> int" where
  "int_of_uint64 x = (if x < 2 ^ 63 then int x else int x - 2 ^ 64)"

text \<open>\<open>hex.EncodeToString\<close>: two lower-case digits a byte.\<close>

definition hexdigit :: "nat \<Rightarrow> char" where
  "hexdigit n = ''0123456789abcdef'' ! n"

fun hex_EncodeToString :: "bytes \<Rightarrow> string" where
  "hex_EncodeToString [] = []"
| "hex_EncodeToString (b # bs) =
     hexdigit (unat b div 16) # hexdigit (unat b mod 16) # hex_EncodeToString bs"

text \<open>
  The validator (package \<open>decrypt\<close>) is a parameter: two predicates on byte strings.
  A nil \<open>*decrypt.Validator\<close> is \<open>None\<close>.
\<close>

record validator =
  Validate :: "bytes \<Rightarrow> bool"
  ValidateImgKey :: "bytes \<Rightarrow> bool"

text \<open>What a \<open>Search\<close> returns: a panic, or the pair \<open>(key, found)\<close>.\<close>

type_synonym search_result = "panic + (string \<times> bool)"

abbreviation not_found :: search_result where
  "not_found \<equiv> Inr ('''', False)"

section \<open>The V4 BasePattern strategy\<close>

definition V4_keyPattern :: bytes where
  "V4_keyPattern =
     [0x00, 0x00, 0x00, 0x00, 0x00, 0x00, 0x00, 0x00,
      0x20, 0x00, 0x00, 0x00, 0x00, 0x00, 0x00, 0x00,
      0x2F, 0x00, 0x00, 0x00, 0x00, 0x00, 0x00, 0x00]"

text \<open>
  The validation every strategy runs on 32 bytes \<open>keyData\<close>: \<open>Some\<close> is the \<open>return\<close> of
  the enclosing function, \<open>None\<close> falls through. \<open>nil_case\<close> is what the strategy does
  when there is no validator.
\<close>

definition check_key :: "validator option \<Rightarrow> (bytes \<Rightarrow> bool) \<Rightarrow> bytes \<Rightarrow> search_result option" where
  "check_key v nil_case keyData =
     (case v of
        Some vd \<Rightarrow>
          if Validate vd keyData then Some (Inr (hex_EncodeToString keyData, True))
          else if ValidateImgKey vd keyData
               then Some (Inr (hex_EncodeToString (take 16 keyData), True))
          else None
      | None \<Rightarrow>
          if nil_case keyData then Some (Inr (hex_EncodeToString keyData, True)) else None)"

text \<open>
  \<open>BasePatternSearch.Search\<close>. The loop state is \<open>index\<close>; \<open>cands\<close> records, latest
  first, every signature hit \<open>i\<close> and \<open>ptrOffset\<close> at which the candidate
  \<open>memory[ptrOffset : ptrOffset+0x20]\<close> was taken. \<open>cancelled\<close> is whether the context is
  cancelled.
\<close>

function BasePattern_loop ::
  "bool \<Rightarrow> validator option \<Rightarrow> bytes \<Rightarrow> int \<Rightarrow> (int \<times> int) list \<Rightarrow>
     (int \<times> int) list \<times> search_result" where
  "BasePattern_loop cancelled v memory index cands =
     (if cancelled then (cands, not_found)
      else case slice memory 0 index of
        Inl p \<Rightarrow> (cands, Inl p)
      | Inr pre \<Rightarrow>
         (let i = bytes_LastIndex pre V4_keyPattern in
          if i = -1 \<or> i - 8 < 0 then (cands, not_found)
          else case slice memory (i - 8) i of
            Inl p \<Rightarrow> (cands, Inl p)
          | Inr pb \<Rightarrow>
             (let ptrOffset = int_of_uint64 (le_uint pb) in
              if ptrOffset > 0x10000 \<and> ptrOffset < int (length memory) - 0x20 then
                (case slice memory ptrOffset (ptrOffset + 0x20) of
                   Inl p \<Rightarrow> ((i, ptrOffset) # cands, Inl p)
                 | Inr keyData \<Rightarrow>
                    (case check_key v (\<lambda>_. True) keyData of
                       Some r \<Rightarrow> ((i, ptrOffset) # cands, r)
                     | None \<Rightarrow>
                        BasePattern_loop cancelled v memory (i - int (length V4_keyPattern))
                          ((i, ptrOffset) # cands)))
              else BasePattern_loop cancelled v memory (i - int (length V4_keyPattern)) cands)))"
  by pat_completeness auto

lemma find_Some_mem: "List.find P xs = Some x \<Longrightarrow> x \<in> set xs \<and> P x"
  by (induction xs) (auto split: if_splits)

lemma find_rev_upt_le:
  "List.find P (rev [0 ..< n]) = Some i \<Longrightarrow> i < n"
  by (drule find_Some_mem) simp

lemma bytes_LastIndex_le:
  "bytes_LastIndex s sep \<le> int (length s) - int (length sep) \<or> bytes_LastIndex s sep = -1"
  by (auto simp: bytes_LastIndex_def split: option.splits dest!: find_rev_upt_le)

lemma slice_length:
  "slice s lo hi = Inr r \<Longrightarrow> length r = nat (hi - lo) \<and> 0 \<le> lo \<and> lo \<le> hi \<and> hi \<le> int (length s)"
  by (auto simp: slice_def split: if_splits)

termination BasePattern_loop
proof (relation "measure (\<lambda>(d, v, memory, index, cands). nat index)", goal_cases)
  case 1
  show ?case by simp
next
  case (2 d v memory index cands pre i pb ptrOffset keyData)
  from 2(2) have "length pre = nat index" "0 \<le> index" by (auto dest: slice_length)
  with bytes_LastIndex_le [of pre V4_keyPattern] 2(3,4) show ?case
    by (auto simp: V4_keyPattern_def)
next
  case (3 d v memory index cands pre i pb ptrOffset)
  from 3(2) have "length pre = nat index" "0 \<le> index" by (auto dest: slice_length)
  with bytes_LastIndex_le [of pre V4_keyPattern] 3(3,4) show ?case
    by (auto simp: V4_keyPattern_def)
qed

definition BasePattern_Search :: "bool \<Rightarrow> bytes \<Rightarrow> validator option \<Rightarrow> search_result" where
  "BasePattern_Search cancelled memory v = snd (BasePattern_loop cancelled v memory (int (length memory)) [])"

definition BasePattern_candidates :: "bool \<Rightarrow> bytes \<Rightarrow> validator option \<Rightarrow> (int \<times> int) list" where
  "BasePattern_candidates cancelled memory v = fst (BasePattern_loop cancelled v memory (int (length memory)) [])"

declare BasePattern_loop.simps [simp del]


lemma find_rev_upt_Some_iff:
  "List.find P (rev [0 ..< n]) = Some i \<longleftrightarrow> i < n \<and> P i \<and> (\<forall>j. i < j \<and> j < n \<longrightarrow> \<not> P j)"
proof (induction n)
  case 0
  show ?case by simp
next
  case (Suc n)
  show ?case
  proof (cases "P n")
    case True
    then show ?thesis by (auto simp: less_Suc_eq)
  next
    case False
    then show ?thesis using Suc by (auto simp: less_Suc_eq)
  qed
qed

lemma bytes_LastIndex_hit:
  assumes "bytes_LastIndex s sep \<noteq> -1"
  shows "\<exists>i. bytes_LastIndex s sep = int i \<and> has_at s sep i \<and> i + length sep \<le> length s"
proof -
  from assms obtain i where f: "List.find (has_at s sep) (rev [0 ..< Suc (length s - length sep)]) = Some i"
    and l: "length sep \<le> length s" and e: "bytes_LastIndex s sep = int i"
    by (auto simp: bytes_LastIndex_def split: if_splits option.splits)
  from f have "i < Suc (length s - length sep)" "has_at s sep i"
    unfolding find_rev_upt_Some_iff by simp_all
  with l e show ?thesis by (intro exI [of _ i]) auto
qed

lemma bytes_LastIndex_eqI:
  assumes "has_at s sep i" "i + length sep \<le> length s"
    and "\<And>j. i < j \<Longrightarrow> j + length sep \<le> length s \<Longrightarrow> \<not> has_at s sep j"
  shows "bytes_LastIndex s sep = int i"
proof -
  have "List.find (has_at s sep) (rev [0 ..< Suc (length s - length sep)]) = Some i"
    unfolding find_rev_upt_Some_iff using assms by auto
  with assms(2) show ?thesis by (simp add: bytes_LastIndex_def)
qed

lemma has_at_take:
  "i + length sep \<le> n \<Longrightarrow> has_at (take n s) sep i = has_at s sep i"
  by (simp add: has_at_def take_drop min_def)

definition BasePattern_ok :: "bytes \<Rightarrow> int \<times> int \<Rightarrow> bool" where
  "BasePattern_ok memory c =
     (case c of (i, off) \<Rightarrow>
        8 \<le> i \<and> has_at memory V4_keyPattern (nat i) \<and>
        off = int_of_uint64 (le_uint (take 8 (drop (nat (i - 8)) memory))) \<and>
        0x10000 < off \<and> off < int (length memory) - 0x20 \<and>
        slice memory off (off + 0x20) = Inr (take 32 (drop (nat off) memory)) \<and>
        length (take 32 (drop (nat off) memory)) = 32)"

lemma BasePattern_loop_ok:
  "list_all (BasePattern_ok memory) cands \<Longrightarrow>
   list_all (BasePattern_ok memory) (fst (BasePattern_loop d v memory index cands))"
proof (induction d v memory index cands rule: BasePattern_loop.induct)
  case (1 d v memory index cands)
  show ?case
  proof (cases "d")
    case True
    then show ?thesis using 1(3) by (subst BasePattern_loop.simps) simp
  next
    case nd: False
    show ?thesis
    proof (cases "slice memory 0 index")
      case (Inl p)
      then show ?thesis using nd 1(3) by (subst BasePattern_loop.simps) simp
    next
      case (Inr pre)
      define i where "i = bytes_LastIndex pre V4_keyPattern"
      show ?thesis
      proof (cases "i = -1 \<or> i - 8 < 0")
        case True
        then show ?thesis using nd Inr 1(3) by (subst BasePattern_loop.simps) (simp add: i_def)
      next
        case hit: False
        from Inr have pre: "pre = take (nat index) memory" "0 \<le> index" "index \<le> int (length memory)"
          by (auto simp: slice_def split: if_splits)
        from hit bytes_LastIndex_hit [of pre V4_keyPattern]
        obtain k where k: "i = int k" "has_at pre V4_keyPattern k" "k + length V4_keyPattern \<le> length pre"
          by (auto simp: i_def)
        have hm: "has_at memory V4_keyPattern (nat i)"
          using k pre has_at_take [of k V4_keyPattern "nat index" memory] by simp
        have ib: "8 \<le> i" "i \<le> int (length memory)" using hit k pre by auto
        then have sl: "slice memory (i - 8) i = Inr (take 8 (drop (nat (i - 8)) memory))"
          by (simp add: slice_def)
        define off where "off = int_of_uint64 (le_uint (take 8 (drop (nat (i - 8)) memory)))"
        show ?thesis
        proof (cases "off > 0x10000 \<and> off < int (length memory) - 0x20")
          case False
          then show ?thesis
            using nd Inr hit sl 1(2) [OF nd Inr i_def hit sl off_def] 1(3)
            by (subst BasePattern_loop.simps)
               (auto simp: i_def [symmetric] off_def [symmetric] Let_def)
        next
          case True
          then have sk: "slice memory off (off + 0x20) = Inr (take 32 (drop (nat off) memory))"
            by (simp add: slice_def)
          have len: "length (take 32 (drop (nat off) memory)) = 32"
            using True by auto
          have ok: "BasePattern_ok memory (i, off)"
            unfolding BasePattern_ok_def prod.case
            using True sk hm ib(1) len off_def by blast
          show ?thesis
          proof (cases "check_key v (\<lambda>_. True) (take 32 (drop (nat off) memory))")
            case None
            then show ?thesis
              using nd Inr hit sl True sk ok 1(3)
                1(1) [OF nd Inr i_def hit sl off_def True sk None]
              by (subst BasePattern_loop.simps)
                 (simp add: i_def [symmetric] off_def [symmetric] Let_def)
          next
            case (Some r)
            then show ?thesis
              using nd Inr hit sl True sk ok 1(3)
              by (subst BasePattern_loop.simps)
                 (simp add: i_def [symmetric] off_def [symmetric] Let_def)
          qed
        qed
      qed
    qed
  qed
qed


section \<open>The chunk of \<open>TestV4Extractor_SearchKey\<close>, case 1\<close>

text \<open>
  \<open>copy(dst[off:off+len(src)], src)\<close> and \<open>binary.LittleEndian.PutUint64\<close>, as the test
  uses them to build its chunk.
\<close>

definition bytes_of :: "string \<Rightarrow> bytes" where
  "bytes_of s = map of_char s"

definition copy_into :: "bytes \<Rightarrow> nat \<Rightarrow> bytes \<Rightarrow> bytes" where
  "copy_into dst off src = take off dst @ src @ drop (off + length src) dst"

definition PutUint64 :: "nat \<Rightarrow> bytes" where
  "PutUint64 x = map (\<lambda>k. of_nat (x div 256 ^ k mod 256)) [0, 1, 2, 3, 4, 5, 6, 7]"

definition test_keyData :: bytes where
  "test_keyData = bytes_of ''0123456789abcdef0123456789abcdef''"

definition test_memory :: bytes where
  "test_memory =
     copy_into (copy_into (copy_into (replicate 0x10200 0) 0x10100 test_keyData)
        0x200 (PutUint64 0x10100)) 0x208 V4_keyPattern"

lemma test_keyData_eq: "test_keyData = [48, 49, 50, 51, 52, 53, 54, 55, 56, 57, 97, 98, 99, 100, 101, 102,
   48, 49, 50, 51, 52, 53, 54, 55, 56, 57, 97, 98, 99, 100, 101, 102]"
  by (simp add: test_keyData_def bytes_of_def)

lemma PutUint64_test: "PutUint64 0x10100 = [0,1,1,0,0,0,0,0]"
  by (simp add: PutUint64_def)

lemma test_memory_eq:
  "test_memory = replicate 0x200 0 @ [0,1,1,0,0,0,0,0] @ V4_keyPattern @
      replicate 0xFEE0 0 @ test_keyData @ replicate 0xE0 0"
  unfolding test_memory_def copy_into_def PutUint64_test
  by (simp add: test_keyData_eq V4_keyPattern_def replicate_add[symmetric])

lemma test_memory_length: "length test_memory = 0x10200"
  by (simp add: test_memory_eq test_keyData_eq V4_keyPattern_def)

lemma test_memory_hit: "has_at test_memory V4_keyPattern 0x208"
  by (simp add: has_at_def test_memory_eq V4_keyPattern_def)

lemma test_memory_tail: "0x2F \<notin> set (drop 0x219 test_memory)"
  by (simp add: test_memory_eq test_keyData_eq V4_keyPattern_def)

lemma has_at_nth:
  "has_at s sep j \<Longrightarrow> k < length sep \<Longrightarrow> j + length sep \<le> length s \<Longrightarrow> s ! (j + k) = sep ! k"
  unfolding has_at_def by (metis add_leD1 nth_drop nth_take)

lemma test_memory_nohit:
  assumes "0x208 < j" "j + length V4_keyPattern \<le> length test_memory"
  shows "\<not> has_at test_memory V4_keyPattern j"
proof
  assume h: "has_at test_memory V4_keyPattern j"
  have "test_memory ! (j + 16) = V4_keyPattern ! 16"
    using has_at_nth [OF h _ assms(2), of 16] by (simp add: V4_keyPattern_def)
  then have e: "test_memory ! (j + 16) = 0x2F" by (simp add: V4_keyPattern_def)
  have "j + 16 < length test_memory" using assms(2) by (simp add: V4_keyPattern_def)
  then have "drop 0x219 test_memory ! (j + 16 - 0x219) = test_memory ! (j + 16)"
      and "j + 16 - 0x219 < length (drop 0x219 test_memory)"
    using assms(1) by (auto simp: add.commute)
  then have "test_memory ! (j + 16) \<in> set (drop 0x219 test_memory)"
    by (metis nth_mem)
  with e test_memory_tail show False by simp
qed

lemma test_memory_LastIndex:
  "bytes_LastIndex test_memory V4_keyPattern = 0x208"
  using bytes_LastIndex_eqI [of test_memory V4_keyPattern "0x208"] test_memory_hit test_memory_nohit
  by (simp add: test_memory_length V4_keyPattern_def)

lemma test_memory_ptr: "slice test_memory 0x200 0x208 = Inr [0,1,1,0,0,0,0,0]"
  by (simp add: slice_def test_memory_length) (simp add: test_memory_eq)

lemma test_memory_key: "slice test_memory 0x10100 0x10120 = Inr test_keyData"
  by (simp add: slice_def test_memory_length) (simp add: test_memory_eq test_keyData_eq V4_keyPattern_def)

lemma test_hex: "hex_EncodeToString test_keyData =
   ''3031323334353637383961626364656630313233343536373839616263646566''"
  by (simp add: test_keyData_eq hexdigit_def)

lemma BasePattern_loop_test:
  "BasePattern_loop False None test_memory (int (length test_memory)) [] =
     ([(0x208, 0x10100)],
      Inr (''3031323334353637383961626364656630313233343536373839616263646566'', True))"
  by (subst BasePattern_loop.simps)
     (simp add: test_memory_length slice_def [of test_memory 0] test_memory_LastIndex
        test_memory_ptr test_memory_key int_of_uint64_def check_key_def test_hex)

section \<open>The marker strategies of V4 and \<open>SearchKey\<close>\<close>

text \<open>
  \<open>for_range\<close> is \<open>for i := 0; i < n; i++ { body }\<close> where the body may return:
  \<open>Some r\<close> is a \<open>return r\<close>, \<open>None\<close> the next iteration. \<open>scan_windows\<close> is the loop over
  32-byte windows that \<open>findSetDBKeyCall\<close>, both \<open>findKeyInRange\<close> and
  \<open>searchForKeyAroundSQLiteFunction\<close> repeat; \<open>scan_pointers\<close> is the loop over 8-byte
  pointers of \<open>findSetDBKeyCall\<close> and \<open>searchForKeyAroundSQLiteFunction\<close>, where
  \<open>uint64(len(fullMemory))-32\<close> and \<open>ptrValue+32\<close> wrap at \<open>2^64\<close>. \<open>isValidKeyPattern\<close> is
  always called on 32 bytes. The three marker strategies loop on an \<open>index\<close> that need not
  grow, so their loops are partial: \<open>None\<close> is a \<open>Search\<close> that never returns.
  With the context cancelled, a pattern loop of \<open>WeixinDLLSearch\<close> returns \<open>("", false)\<close>,
  and so does every later one.

  \<open>SearchKey\<close> starts one goroutine a strategy and reads \<open>len(strategies)\<close> results off
  the channel, returning the first that is found. \<open>arrival\<close> is the order in which the
  strategies' results arrive; a strategy that never returns sends nothing, so the
  collector blocks once the others' results are used up; a panic in a goroutine ends the
  process.
\<close>


fun for_range :: "nat list \<Rightarrow> (nat \<Rightarrow> 'r option) \<Rightarrow> 'r option" where
  "for_range [] body = None"
| "for_range (i # is) body = (case body i of Some r \<Rightarrow> Some r | None \<Rightarrow> for_range is body)"

fun isValidKeyPattern_loop :: "byte \<Rightarrow> bytes \<Rightarrow> bool \<Rightarrow> bool \<Rightarrow> bool \<times> bool" where
  "isValidKeyPattern_loop firstByte [] allZero allSame = (allZero, allSame)"
| "isValidKeyPattern_loop firstByte (b # bs) allZero allSame =
     (let allZero = (if b \<noteq> 0 then False else allZero);
          allSame = (if b \<noteq> firstByte then False else allSame)
      in if \<not> allZero \<and> \<not> allSame then (allZero, allSame)
         else isValidKeyPattern_loop firstByte bs allZero allSame)"

definition isValidKeyPattern :: "bytes \<Rightarrow> bool" where
  "isValidKeyPattern data =
     (case isValidKeyPattern_loop (data ! 0) data True True of
        (allZero, allSame) \<Rightarrow> \<not> allZero \<and> \<not> allSame)"

definition scan_windows :: "bytes \<Rightarrow> validator option \<Rightarrow> search_result option" where
  "scan_windows localMemory v =
     for_range [0 ..< nat (int (length localMemory) - 32)] (\<lambda>i.
       case slice localMemory (int i) (int i + 32) of
         Inl p \<Rightarrow> Some (Inl p)
       | Inr keyData \<Rightarrow> check_key v isValidKeyPattern keyData)"

definition scan_pointers :: "bytes \<Rightarrow> bytes \<Rightarrow> validator option \<Rightarrow> search_result option" where
  "scan_pointers localMemory fullMemory v =
     for_range [0 ..< nat (int (length localMemory) - 8)] (\<lambda>i.
       case slice localMemory (int i) (int i + 8) of
         Inl p \<Rightarrow> Some (Inl p)
       | Inr pb \<Rightarrow>
          (let ptrValue = le_uint pb in
           if ptrValue > 0x10000 \<and> ptrValue < (length fullMemory + 2 ^ 64 - 32) mod 2 ^ 64 then
             (case slice fullMemory (int ptrValue) (int ((ptrValue + 32) mod 2 ^ 64)) of
                Inl p \<Rightarrow> Some (Inl p)
              | Inr keyData \<Rightarrow> check_key v isValidKeyPattern keyData)
           else None))"

definition or_not_found :: "search_result option \<Rightarrow> search_result" where
  "or_not_found r = (case r of Some x \<Rightarrow> x | None \<Rightarrow> not_found)"

definition stops :: "search_result \<Rightarrow> bool" where
  "stops r = (case r of Inl p \<Rightarrow> True | Inr (key, found) \<Rightarrow> found)"

definition SetDBKeyLog_findSetDBKeyCall :: "bytes \<Rightarrow> bytes \<Rightarrow> validator option \<Rightarrow> search_result" where
  "SetDBKeyLog_findSetDBKeyCall localMemory fullMemory v =
     (case scan_windows localMemory v of
        Some r \<Rightarrow> r
      | None \<Rightarrow> or_not_found (scan_pointers localMemory fullMemory v))"

definition SetDBKeyLog_findKeyInRange :: "bytes \<Rightarrow> validator option \<Rightarrow> search_result" where
  "SetDBKeyLog_findKeyInRange memory v = or_not_found (scan_windows memory v)"

definition setDBKeyPattern :: bytes where
  "setDBKeyPattern = bytes_of ''SetDBKey''"

definition clip_lo :: "int \<Rightarrow> int" where
  "clip_lo start = (if start < 0 then 0 else start)"

definition clip_hi :: "int \<Rightarrow> bytes \<Rightarrow> int" where
  "clip_hi e memory = (if e > int (length memory) then int (length memory) else e)"

partial_function (option) SetDBKeyLog_loop ::
  "bool \<Rightarrow> validator option \<Rightarrow> bytes \<Rightarrow> int \<Rightarrow> search_result option" where
  "SetDBKeyLog_loop cancelled v memory index =
     (if cancelled then Some not_found
      else case slice memory index (int (length memory)) of
        Inl p \<Rightarrow> Some (Inl p)
      | Inr rest \<Rightarrow>
         (let index = bytes_Index rest setDBKeyPattern in
          if index = -1 then Some not_found
          else
            let actualIndex = index;
                index = index + int (length setDBKeyPattern);
                start = clip_lo (actualIndex - 200);
                end = clip_hi (index + 200) memory
            in case slice memory start end of
                 Inl p \<Rightarrow> Some (Inl p)
               | Inr localMemory \<Rightarrow>
                  (let r1 = SetDBKeyLog_findSetDBKeyCall localMemory memory v in
                   if stops r1 then Some r1
                   else let r2 = SetDBKeyLog_findKeyInRange localMemory v in
                        if stops r2 then Some r2
                        else SetDBKeyLog_loop cancelled v memory index)))"

definition SetDBKeyLog_Search :: "bool \<Rightarrow> bytes \<Rightarrow> validator option \<Rightarrow> search_result option" where
  "SetDBKeyLog_Search cancelled memory v = SetDBKeyLog_loop cancelled v memory 0"


definition SQLiteSafety_searchForKeyAroundSQLiteFunction ::
  "bytes \<Rightarrow> int \<Rightarrow> bytes \<Rightarrow> validator option \<Rightarrow> search_result" where
  "SQLiteSafety_searchForKeyAroundSQLiteFunction localMemory patternStart fullMemory v =
     (let start = clip_lo (patternStart - 500);
          end = clip_hi (patternStart + 500) localMemory
      in case slice localMemory start end of
           Inl p \<Rightarrow> Inl p
         | Inr searchArea \<Rightarrow>
            (case scan_windows searchArea v of
               Some r \<Rightarrow> r
             | None \<Rightarrow> or_not_found (scan_pointers searchArea fullMemory v)))"

definition sqlitePatterns :: "bytes list" where
  "sqlitePatterns =
     [bytes_of ''sqlite3_exec'', bytes_of ''sqlite3_prepare_v2'', bytes_of ''sqlite3_prepare'',
      bytes_of ''sqlite3_step'', bytes_of ''setCipherKey'', bytes_of ''WCDB'']"

partial_function (option) SQLiteSafety_pattern_loop ::
  "validator option \<Rightarrow> bytes \<Rightarrow> bytes \<Rightarrow> bytes \<Rightarrow> int \<Rightarrow> search_result option" where
  "SQLiteSafety_pattern_loop v localMemory fullMemory pattern index =
     (case slice localMemory index (int (length localMemory)) of
        Inl p \<Rightarrow> Some (Inl p)
      | Inr rest \<Rightarrow>
         (let index = bytes_Index rest pattern in
          if index = -1 then Some not_found
          else
            let patternStart = index;
                index = index + int (length pattern);
                r = SQLiteSafety_searchForKeyAroundSQLiteFunction localMemory patternStart fullMemory v
            in if stops r then Some r
               else SQLiteSafety_pattern_loop v localMemory fullMemory pattern index))"

fun SQLiteSafety_patterns ::
  "validator option \<Rightarrow> bytes \<Rightarrow> bytes \<Rightarrow> bytes list \<Rightarrow> search_result option" where
  "SQLiteSafety_patterns v localMemory fullMemory [] = Some not_found"
| "SQLiteSafety_patterns v localMemory fullMemory (pattern # patterns) =
     (case SQLiteSafety_pattern_loop v localMemory fullMemory pattern 0 of
        None \<Rightarrow> None
      | Some r \<Rightarrow> if stops r then Some r
                  else SQLiteSafety_patterns v localMemory fullMemory patterns)"

definition SQLiteSafety_searchSQLiteRelatedFunctions ::
  "bytes \<Rightarrow> bytes \<Rightarrow> validator option \<Rightarrow> search_result option" where
  "SQLiteSafety_searchSQLiteRelatedFunctions localMemory fullMemory v =
     SQLiteSafety_patterns v localMemory fullMemory sqlitePatterns"

definition unopenedPattern :: bytes where
  "unopenedPattern = bytes_of ''unopened''"

partial_function (option) SQLiteSafety_loop ::
  "bool \<Rightarrow> validator option \<Rightarrow> bytes \<Rightarrow> int \<Rightarrow> search_result option" where
  "SQLiteSafety_loop cancelled v memory index =
     (if cancelled then Some not_found
      else case slice memory index (int (length memory)) of
        Inl p \<Rightarrow> Some (Inl p)
      | Inr rest \<Rightarrow>
         (let index = bytes_Index rest unopenedPattern in
          if index = -1 then Some not_found
          else
            let actualIndex = index;
                index = index + int (length unopenedPattern);
                start = clip_lo (actualIndex - 1000);
                end = clip_hi (index + 1000) memory
            in case slice memory start end of
                 Inl p \<Rightarrow> Some (Inl p)
               | Inr localMemory \<Rightarrow>
                  (case SQLiteSafety_searchSQLiteRelatedFunctions localMemory memory v of
                     None \<Rightarrow> None
                   | Some r \<Rightarrow> if stops r then Some r
                               else SQLiteSafety_loop cancelled v memory index)))"

definition SQLiteSafety_Search :: "bool \<Rightarrow> bytes \<Rightarrow> validator option \<Rightarrow> search_result option" where
  "SQLiteSafety_Search cancelled memory v = SQLiteSafety_loop cancelled v memory 0"

definition WeixinDLL_findKeyInRange :: "bytes \<Rightarrow> validator option \<Rightarrow> search_result" where
  "WeixinDLL_findKeyInRange memory v = or_not_found (scan_windows memory v)"

definition weixinDLLPatterns :: "bytes list" where
  "weixinDLLPatterns = [bytes_of ''Weixin.dll'', bytes_of ''xwechat_files'', bytes_of ''db_storage'']"

partial_function (option) WeixinDLL_pattern_loop ::
  "bool \<Rightarrow> validator option \<Rightarrow> bytes \<Rightarrow> bytes \<Rightarrow> int \<Rightarrow> search_result option" where
  "WeixinDLL_pattern_loop cancelled v memory pattern index =
     (if cancelled then Some not_found
      else case slice memory index (int (length memory)) of
        Inl p \<Rightarrow> Some (Inl p)
      | Inr rest \<Rightarrow>
         (let index = bytes_Index rest pattern in
          if index = -1 then Some not_found
          else
            let index = index + int (length pattern);
                start = clip_lo (index - 500);
                end = clip_hi (index + 500) memory
            in case slice memory start end of
                 Inl p \<Rightarrow> Some (Inl p)
               | Inr localMemory \<Rightarrow>
                  (let r = WeixinDLL_findKeyInRange localMemory v in
                   if stops r then Some r
                   else WeixinDLL_pattern_loop cancelled v memory pattern index)))"

fun WeixinDLL_patterns ::
  "bool \<Rightarrow> validator option \<Rightarrow> bytes \<Rightarrow> bytes list \<Rightarrow> search_result option" where
  "WeixinDLL_patterns cancelled v memory [] = Some not_found"
| "WeixinDLL_patterns cancelled v memory (pattern # patterns) =
     (case WeixinDLL_pattern_loop cancelled v memory pattern 0 of
        None \<Rightarrow> None
      | Some r \<Rightarrow> if stops r then Some r
                  else WeixinDLL_patterns cancelled v memory patterns)"

definition WeixinDLL_Search :: "bool \<Rightarrow> bytes \<Rightarrow> validator option \<Rightarrow> search_result option" where
  "WeixinDLL_Search cancelled memory v = WeixinDLL_patterns cancelled v memory weixinDLLPatterns"

datatype strategy = BasePattern | SetDBKeyLog | SQLiteSafety | WeixinDLL

fun Search :: "strategy \<Rightarrow> bool \<Rightarrow> bytes \<Rightarrow> validator option \<Rightarrow> search_result option" where
  "Search BasePattern cancelled memory v = Some (BasePattern_Search cancelled memory v)"
| "Search SetDBKeyLog cancelled memory v = SetDBKeyLog_Search cancelled memory v"
| "Search SQLiteSafety cancelled memory v = SQLiteSafety_Search cancelled memory v"
| "Search WeixinDLL cancelled memory v = WeixinDLL_Search cancelled memory v"

definition NewV4Extractor_strategies :: "strategy list" where
  "NewV4Extractor_strategies = [BasePattern, SetDBKeyLog, SQLiteSafety, WeixinDLL]"

fun SearchKey_collect :: "search_result option list \<Rightarrow> search_result option" where
  "SearchKey_collect [] = Some not_found"
| "SearchKey_collect (None # rs) =
     (case SearchKey_collect rs of
        None \<Rightarrow> None
      | Some r \<Rightarrow> if stops r then Some r else None)"
| "SearchKey_collect (Some r # rs) = (if stops r then Some r else SearchKey_collect rs)"

definition SearchKey :: "strategy list \<Rightarrow> bool \<Rightarrow> bytes \<Rightarrow> validator option \<Rightarrow> search_result option" where
  "SearchKey arrival cancelled memory v =
     SearchKey_collect (map (\<lambda>s. Search s cancelled memory v) arrival)"

lemma for_range_None: "(\<And>i. i \<in> set ns \<Longrightarrow> body i = None) \<Longrightarrow> for_range ns body = None"
  by (induction ns) auto

definition setdbkey_memory :: bytes where
  "setdbkey_memory = bytes_of ''SetDBKeySetDBKey'' @ replicate 16 0"

lemma setdbkey_memory_eq: "setdbkey_memory = [83, 101, 116, 68, 66, 75, 101, 121, 83, 101, 116, 68, 66, 75, 101, 121,0,0,0,0,0,0,0,0,0,0,0,0,0,0,0,0]"
  by (simp add: setdbkey_memory_def bytes_of_def eval_nat_numeral)

lemma setDBKeyPattern_eq: "setDBKeyPattern = [83, 101, 116, 68, 66, 75, 101, 121]"
  by (simp add: setDBKeyPattern_def bytes_of_def)

lemma setdbkey_memory_Index0: "bytes_Index setdbkey_memory setDBKeyPattern = 0"
  unfolding setdbkey_memory_eq setDBKeyPattern_eq by code_simp

lemma setdbkey_memory_Index8: "bytes_Index (drop 8 setdbkey_memory) setDBKeyPattern = 0"
  unfolding setdbkey_memory_eq setDBKeyPattern_eq by code_simp

lemma scan_windows_short: "length m \<le> 32 \<Longrightarrow> scan_windows m v = None"
  by (simp add: scan_windows_def)

lemma scan_pointers_32: "length full = 32 \<Longrightarrow> scan_pointers m full v = None"
  unfolding scan_pointers_def
  by (rule for_range_None) (auto simp: slice_def Let_def)

lemma setDBKeyPattern_length: "length setDBKeyPattern = 8"
  by (simp add: setDBKeyPattern_def bytes_of_def)

lemma setdbkey_memory_step:
  assumes "index = 0 \<or> index = 8"
  shows "SetDBKeyLog_loop False v setdbkey_memory index = SetDBKeyLog_loop False v setdbkey_memory 8"
proof -
  have l: "length setdbkey_memory = 32" by (simp add: setdbkey_memory_eq)
  have s: "slice setdbkey_memory index 32 = Inr (drop (nat index) setdbkey_memory)"
    using assms by (auto simp: slice_def l)
  have i: "bytes_Index (drop (nat index) setdbkey_memory) setDBKeyPattern = 0"
    using assms setdbkey_memory_Index0 setdbkey_memory_Index8 by auto
  have w: "slice setdbkey_memory 0 32 = Inr setdbkey_memory" by (simp add: slice_def l)
  show ?thesis
    by (subst SetDBKeyLog_loop.simps)
       (simp add: l s i w setDBKeyPattern_length clip_lo_def clip_hi_def Let_def
          SetDBKeyLog_findSetDBKeyCall_def SetDBKeyLog_findKeyInRange_def
          scan_windows_short scan_pointers_32 or_not_found_def stops_def)
qed

lemma setdbkey_memory_never:
  assumes "SetDBKeyLog_loop c v m index = Some y"
  shows "\<not> (c = False \<and> m = setdbkey_memory \<and> index = 8)"
proof (rule SetDBKeyLog_loop.raw_induct [OF _ assms], goal_cases)
  case (1 f c v m index y)
  show ?case
  proof
    assume a: "c = False \<and> m = setdbkey_memory \<and> index = 8"
    have l: "length setdbkey_memory = 32" by (simp add: setdbkey_memory_eq)
    have s: "slice setdbkey_memory 8 32 = Inr (drop 8 setdbkey_memory)"
      by (auto simp: slice_def l)
    have w: "slice setdbkey_memory 0 32 = Inr setdbkey_memory" by (simp add: slice_def l)
    from 1(2) a have "f False v setdbkey_memory 8 = Some y"
      by (simp add: l s setdbkey_memory_Index8 w setDBKeyPattern_length clip_lo_def clip_hi_def Let_def
          SetDBKeyLog_findSetDBKeyCall_def SetDBKeyLog_findKeyInRange_def
          scan_windows_short scan_pointers_32 or_not_found_def stops_def)
    from 1(1) [OF this] show False by simp
  qed
qed

lemma SetDBKeyLog_diverges: "SetDBKeyLog_Search False setdbkey_memory v = None"
proof -
  have "SetDBKeyLog_Search False setdbkey_memory v = SetDBKeyLog_loop False v setdbkey_memory 8"
    unfolding SetDBKeyLog_Search_def by (rule setdbkey_memory_step) simp
  moreover have "SetDBKeyLog_loop False v setdbkey_memory 8 = None"
    using setdbkey_memory_never [of False v setdbkey_memory 8] by (cases "SetDBKeyLog_loop False v setdbkey_memory 8") auto
  ultimately show ?thesis by simp
qed

lemma has_at_subset: "has_at s sep i \<Longrightarrow> set sep \<subseteq> set s"
  unfolding has_at_def by (metis set_drop_subset set_take_subset subset_trans)

lemma bytes_Index_absent:
  assumes "b \<in> set sep" "b \<notin> set s"
  shows "bytes_Index s sep = -1"
proof -
  have "\<not> has_at s sep i" for i using assms has_at_subset by blast
  then have "List.find (has_at s sep) ns = None" for ns by (simp add: find_None_iff)
  then show ?thesis by (simp add: bytes_Index_def)
qed

lemma slice_whole: "slice s 0 (int (length s)) = Inr s"
  by (simp add: slice_def)

lemma SetDBKeyLog_absent:
  "bytes_Index memory setDBKeyPattern = -1 \<Longrightarrow> SetDBKeyLog_Search c memory v = Some not_found"
  unfolding SetDBKeyLog_Search_def
  by (subst SetDBKeyLog_loop.simps) (simp add: slice_whole)

lemma SQLiteSafety_absent:
  "bytes_Index memory unopenedPattern = -1 \<Longrightarrow> SQLiteSafety_Search c memory v = Some not_found"
  unfolding SQLiteSafety_Search_def
  by (subst SQLiteSafety_loop.simps) (simp add: slice_whole)

lemma WeixinDLL_patterns_absent:
  "(\<And>p. p \<in> set ps \<Longrightarrow> bytes_Index memory p = -1) \<Longrightarrow>
   WeixinDLL_patterns c v memory ps = Some not_found"
proof (induction ps)
  case Nil
  show ?case by simp
next
  case (Cons p ps)
  have "WeixinDLL_pattern_loop c v memory p 0 = Some not_found"
    by (subst WeixinDLL_pattern_loop.simps) (simp add: slice_whole Cons.prems)
  then show ?case using Cons by (simp add: stops_def)
qed

lemma SQLiteSafety_patterns_absent:
  "(\<And>p. p \<in> set ps \<Longrightarrow> bytes_Index localMemory p = -1) \<Longrightarrow>
   SQLiteSafety_patterns v localMemory fullMemory ps = Some not_found"
proof (induction ps)
  case Nil
  show ?case by simp
next
  case (Cons p ps)
  have "SQLiteSafety_pattern_loop v localMemory fullMemory p 0 = Some not_found"
    by (subst SQLiteSafety_pattern_loop.simps) (simp add: slice_whole Cons.prems)
  then show ?case using Cons by (simp add: stops_def)
qed

lemma BasePattern_short:
  assumes "length memory < 32"
  shows "BasePattern_loop c v memory (int (length memory)) cands = (cands, not_found)"
proof -
  have "bytes_LastIndex memory V4_keyPattern < 8"
    using bytes_LastIndex_le [of memory V4_keyPattern] assms by (auto simp: V4_keyPattern_def)
  then show ?thesis
    by (subst BasePattern_loop.simps) (auto simp: slice_whole Let_def)
qed

lemma SearchKey_collect_unique:
  assumes "s0 \<in> set arrival" "res s0 = Some (Inr (k, True))"
    and "\<And>s. s \<in> set arrival \<Longrightarrow> s \<noteq> s0 \<Longrightarrow> res s = Some not_found"
  shows "SearchKey_collect (map res arrival) = Some (Inr (k, True))"
  using assms
proof (induction arrival)
  case Nil
  then show ?case by simp
next
  case (Cons a arrival)
  show ?case
  proof (cases "a = s0")
    case True
    then show ?thesis using Cons.prems(2) by (simp add: stops_def)
  next
    case False
    then have "res a = Some not_found" "s0 \<in> set arrival" using Cons.prems by auto
    then show ?thesis using Cons by (simp add: stops_def)
  qed
qed

lemma test_memory_set: "set test_memory = {0, 1, 0x20, 0x2F} \<union> set test_keyData"
  by (auto simp: test_memory_eq V4_keyPattern_def)

lemma test_memory_absent:
  "83 \<notin> set test_memory" "117 \<notin> set test_memory" "87 \<notin> set test_memory"
  "120 \<notin> set test_memory" "95 \<notin> set test_memory"
  by (simp_all add: test_memory_set test_keyData_eq)

lemma test_memory_markers:
  "bytes_Index test_memory setDBKeyPattern = -1"
  "bytes_Index test_memory unopenedPattern = -1"
  "p \<in> set weixinDLLPatterns \<Longrightarrow> bytes_Index test_memory p = -1"
proof -
  show "bytes_Index test_memory setDBKeyPattern = -1"
    by (rule bytes_Index_absent [OF _ test_memory_absent(1)]) (simp add: setDBKeyPattern_def bytes_of_def)
  show "bytes_Index test_memory unopenedPattern = -1"
    by (rule bytes_Index_absent [OF _ test_memory_absent(2)]) (simp add: unopenedPattern_def bytes_of_def)
  assume "p \<in> set weixinDLLPatterns"
  then consider "p = bytes_of ''Weixin.dll''" | "p = bytes_of ''xwechat_files''" | "p = bytes_of ''db_storage''"
    by (auto simp: weixinDLLPatterns_def)
  then show "bytes_Index test_memory p = -1"
  proof cases
    case 1
    show ?thesis by (rule bytes_Index_absent [OF _ test_memory_absent(3)]) (simp add: 1 bytes_of_def)
  next
    case 2
    show ?thesis by (rule bytes_Index_absent [OF _ test_memory_absent(4)]) (simp add: 2 bytes_of_def)
  next
    case 3
    show ?thesis by (rule bytes_Index_absent [OF _ test_memory_absent(5)]) (simp add: 3 bytes_of_def)
  qed
qed


section \<open>Chunks on which the marker strategies do not return\<close>

text \<open>
  A marker twice in a row: after the first hit \<open>index\<close> is the marker's length, the next
  \<open>bytes.Index(memory[index:], marker)\<close> is 0, an offset into \<open>memory[index:]\<close>, and
  \<open>index\<close> is the marker's length again. \<open>short_memory\<close> is a marker and one more byte.
\<close>


definition unopened_memory :: bytes where
  "unopened_memory = bytes_of ''unopenedunopened''"

definition weixin_memory :: bytes where
  "weixin_memory = bytes_of ''Weixin.dllWeixin.dll''"

lemma unopened_memory_eq:
  "unopened_memory = [117, 110, 111, 112, 101, 110, 101, 100, 117, 110, 111, 112, 101, 110, 101, 100]"
  by (simp add: unopened_memory_def bytes_of_def)

lemma unopenedPattern_eq: "unopenedPattern = [117, 110, 111, 112, 101, 110, 101, 100]"
  by (simp add: unopenedPattern_def bytes_of_def)

lemma unopened_memory_Index:
  "bytes_Index unopened_memory unopenedPattern = 0"
  "bytes_Index (drop 8 unopened_memory) unopenedPattern = 0"
  unfolding unopened_memory_eq unopenedPattern_eq by code_simp+

lemma unopened_memory_sqlite:
  "SQLiteSafety_searchSQLiteRelatedFunctions unopened_memory fullMemory v = Some not_found"
  unfolding SQLiteSafety_searchSQLiteRelatedFunctions_def
proof (rule SQLiteSafety_patterns_absent)
  fix p assume "p \<in> set sqlitePatterns"
  then have "115 \<in> set p \<or> 87 \<in> set p"
    by (auto simp: sqlitePatterns_def bytes_of_def)
  moreover have "115 \<notin> set unopened_memory" "87 \<notin> set unopened_memory"
    by (simp_all add: unopened_memory_eq)
  ultimately show "bytes_Index unopened_memory p = -1"
    using bytes_Index_absent by blast
qed

lemma unopened_memory_step:
  assumes "index = 0 \<or> index = 8"
  shows "SQLiteSafety_loop False v unopened_memory index = SQLiteSafety_loop False v unopened_memory 8"
proof -
  have l: "length unopened_memory = 16" "length unopenedPattern = 8"
    by (simp_all add: unopened_memory_eq unopenedPattern_eq)
  have s: "slice unopened_memory index 16 = Inr (drop (nat index) unopened_memory)"
    using assms by (auto simp: slice_def l)
  have i: "bytes_Index (drop (nat index) unopened_memory) unopenedPattern = 0"
    using assms unopened_memory_Index by auto
  have w: "slice unopened_memory 0 16 = Inr unopened_memory" by (simp add: slice_def l)
  show ?thesis
    by (subst SQLiteSafety_loop.simps)
       (simp add: l s i w clip_lo_def clip_hi_def Let_def unopened_memory_sqlite stops_def)
qed

lemma unopened_memory_never:
  assumes "SQLiteSafety_loop c v m index = Some y"
  shows "\<not> (c = False \<and> m = unopened_memory \<and> index = 8)"
proof (rule SQLiteSafety_loop.raw_induct [OF _ assms], goal_cases)
  case (1 f c v m index y)
  show ?case
  proof
    assume a: "c = False \<and> m = unopened_memory \<and> index = 8"
    have l: "length unopened_memory = 16" "length unopenedPattern = 8"
      by (simp_all add: unopened_memory_eq unopenedPattern_eq)
    have s: "slice unopened_memory 8 16 = Inr (drop 8 unopened_memory)"
      by (auto simp: slice_def l)
    have w: "slice unopened_memory 0 16 = Inr unopened_memory" by (simp add: slice_def l)
    from 1(2) a have "f False v unopened_memory 8 = Some y"
      by (simp add: l s unopened_memory_Index w clip_lo_def clip_hi_def Let_def
            unopened_memory_sqlite stops_def)
    from 1(1) [OF this] show False by simp
  qed
qed

lemma SQLiteSafety_diverges: "SQLiteSafety_Search False unopened_memory v = None"
proof -
  have "SQLiteSafety_Search False unopened_memory v = SQLiteSafety_loop False v unopened_memory 8"
    unfolding SQLiteSafety_Search_def by (rule unopened_memory_step) simp
  moreover have "SQLiteSafety_loop False v unopened_memory 8 = None"
    using unopened_memory_never [of False v unopened_memory 8]
    by (cases "SQLiteSafety_loop False v unopened_memory 8") auto
  ultimately show ?thesis by simp
qed

definition weixin_dll :: bytes where
  "weixin_dll = bytes_of ''Weixin.dll''"

lemma weixin_memory_eq:
  "weixin_memory = [87, 101, 105, 120, 105, 110, 46, 100, 108, 108, 87, 101, 105, 120, 105, 110, 46, 100, 108, 108]"
  by (simp add: weixin_memory_def bytes_of_def)

lemma weixin_dll_eq: "weixin_dll = [87, 101, 105, 120, 105, 110, 46, 100, 108, 108]"
  by (simp add: weixin_dll_def bytes_of_def)

lemma weixin_memory_Index:
  "bytes_Index weixin_memory weixin_dll = 0"
  "bytes_Index (drop 10 weixin_memory) weixin_dll = 0"
  unfolding weixin_memory_eq weixin_dll_eq by code_simp+

lemma weixin_memory_step:
  assumes "index = 0 \<or> index = 10"
  shows "WeixinDLL_pattern_loop False v weixin_memory weixin_dll index =
         WeixinDLL_pattern_loop False v weixin_memory weixin_dll 10"
proof -
  have l: "length weixin_memory = 20" "length weixin_dll = 10"
    by (simp_all add: weixin_memory_eq weixin_dll_eq)
  have s: "slice weixin_memory index 20 = Inr (drop (nat index) weixin_memory)"
    using assms by (auto simp: slice_def l)
  have i: "bytes_Index (drop (nat index) weixin_memory) weixin_dll = 0"
    using assms weixin_memory_Index by auto
  have w: "slice weixin_memory 0 20 = Inr weixin_memory" by (simp add: slice_def l)
  show ?thesis
    by (subst WeixinDLL_pattern_loop.simps)
       (simp add: l s i w clip_lo_def clip_hi_def Let_def WeixinDLL_findKeyInRange_def
          scan_windows_short or_not_found_def stops_def)
qed

lemma weixin_memory_never:
  assumes "WeixinDLL_pattern_loop c v m p index = Some y"
  shows "\<not> (c = False \<and> m = weixin_memory \<and> p = weixin_dll \<and> index = 10)"
proof (rule WeixinDLL_pattern_loop.raw_induct [OF _ assms], goal_cases)
  case (1 f c v m p index y)
  show ?case
  proof
    assume a: "c = False \<and> m = weixin_memory \<and> p = weixin_dll \<and> index = 10"
    have l: "length weixin_memory = 20" "length weixin_dll = 10"
      by (simp_all add: weixin_memory_eq weixin_dll_eq)
    have s: "slice weixin_memory 10 20 = Inr (drop 10 weixin_memory)"
      by (auto simp: slice_def l)
    have w: "slice weixin_memory 0 20 = Inr weixin_memory" by (simp add: slice_def l)
    from 1(2) a have "f False v weixin_memory weixin_dll 10 = Some y"
      by (simp add: l s weixin_memory_Index w clip_lo_def clip_hi_def Let_def
            WeixinDLL_findKeyInRange_def scan_windows_short or_not_found_def stops_def)
    from 1(1) [OF this] show False by simp
  qed
qed

lemma WeixinDLL_diverges: "WeixinDLL_Search False weixin_memory v = None"
proof -
  have "WeixinDLL_pattern_loop False v weixin_memory weixin_dll 0 =
        WeixinDLL_pattern_loop False v weixin_memory weixin_dll 10"
    by (rule weixin_memory_step) simp
  moreover have "WeixinDLL_pattern_loop False v weixin_memory weixin_dll 10 = None"
    using weixin_memory_never [of False v weixin_memory weixin_dll 10]
    by (cases "WeixinDLL_pattern_loop False v weixin_memory weixin_dll 10") auto
  ultimately show ?thesis
    by (simp add: WeixinDLL_Search_def weixinDLLPatterns_def weixin_dll_def)
qed

definition short_memory :: bytes where
  "short_memory = bytes_of ''SetDBKeyA''"

lemma short_memory_eq: "short_memory = [83, 101, 116, 68, 66, 75, 101, 121, 65]"
  by (simp add: short_memory_def bytes_of_def)

lemma short_memory_Index: "bytes_Index short_memory setDBKeyPattern = 0"
  unfolding short_memory_eq setDBKeyPattern_eq by code_simp

lemma short_memory_pointers:
  "scan_pointers short_memory short_memory v = Some (Inl SliceBoundsOutOfRange)"
  by (simp add: scan_pointers_def short_memory_eq slice_def)

lemma short_memory_SetDBKeyLog:
  "SetDBKeyLog_Search False short_memory v = Some (Inl SliceBoundsOutOfRange)"
proof -
  have l: "length short_memory = 9" by (simp add: short_memory_eq)
  have w: "slice short_memory 0 9 = Inr short_memory" by (simp add: slice_def l)
  show ?thesis
    unfolding SetDBKeyLog_Search_def
    by (subst SetDBKeyLog_loop.simps)
       (simp add: l w short_memory_Index setDBKeyPattern_length clip_lo_def clip_hi_def Let_def
          SetDBKeyLog_findSetDBKeyCall_def scan_windows_short short_memory_pointers
          or_not_found_def stops_def)
qed

lemma short_memory_others:
  "BasePattern_Search False short_memory v = not_found"
  "SQLiteSafety_Search False short_memory v = Some not_found"
  "WeixinDLL_Search False short_memory v = Some not_found"
proof -
  have "length short_memory = 9" by (simp add: short_memory_eq)
  then show "BasePattern_Search False short_memory v = not_found"
    using BasePattern_short [of short_memory False v "[]"] by (simp add: BasePattern_Search_def)
  have "bytes_Index short_memory unopenedPattern = -1"
    unfolding short_memory_eq unopenedPattern_def bytes_of_def by code_simp
  then show "SQLiteSafety_Search False short_memory v = Some not_found"
    by (rule SQLiteSafety_absent)
  have "bytes_Index short_memory p = -1" if "p \<in> set weixinDLLPatterns" for p
    using that by (auto simp: weixinDLLPatterns_def bytes_Index_def short_memory_eq bytes_of_def)
  then show "WeixinDLL_Search False short_memory v = Some not_found"
    unfolding WeixinDLL_Search_def by (rule WeixinDLL_patterns_absent)
qed

lemma weixin_memory_others:
  "BasePattern_Search False weixin_memory v = not_found"
  "SetDBKeyLog_Search False weixin_memory v = Some not_found"
  "SQLiteSafety_Search False weixin_memory v = Some not_found"
proof -
  have "length weixin_memory = 20" by (simp add: weixin_memory_eq)
  then show "BasePattern_Search False weixin_memory v = not_found"
    using BasePattern_short [of weixin_memory False v "[]"] by (simp add: BasePattern_Search_def)
  have "83 \<notin> set weixin_memory" "117 \<notin> set weixin_memory"
    by (simp_all add: weixin_memory_eq)
  then have "bytes_Index weixin_memory setDBKeyPattern = -1"
     "bytes_Index weixin_memory unopenedPattern = -1"
    by (auto intro!: bytes_Index_absent simp: setDBKeyPattern_eq unopenedPattern_def bytes_of_def)
  then show "SetDBKeyLog_Search False weixin_memory v = Some not_found"
    "SQLiteSafety_Search False weixin_memory v = Some not_found"
    by (simp_all add: SetDBKeyLog_absent SQLiteSafety_absent)
qed


section \<open>Claims about the BasePattern strategy\<close>

text \<open>
  C7. Every candidate the BasePattern strategy takes comes from a signature hit \<open>i\<close> with
  at least 8 bytes before it; \<open>ptrOffset\<close> is the little-endian value of those 8 bytes,
  read as an offset into the chunk; the candidate is taken only when
  \<open>0x10000 < ptrOffset < len(chunk) - 32\<close>, so a \<open>ptrOffset\<close> above \<open>len(chunk) - 32\<close>
  is rejected, and the slice \<open>chunk[ptrOffset : ptrOffset+32]\<close> is in bounds: it does not
  panic and has 32 bytes.
\<close>

theorem BasePattern_candidate_in_bounds:
  "\<forall>(i, ptrOffset) \<in> set (BasePattern_candidates cancelled memory v).
     8 \<le> i \<and> has_at memory V4_keyPattern (nat i) \<and>
     ptrOffset = int_of_uint64 (le_uint (take 8 (drop (nat (i - 8)) memory))) \<and>
     0x10000 < ptrOffset \<and> ptrOffset < int (length memory) - 0x20 \<and>
     \<not> ptrOffset > int (length memory) - 0x20 \<and>
     slice memory ptrOffset (ptrOffset + 0x20) = Inr (take 32 (drop (nat ptrOffset) memory)) \<and>
     length (take 32 (drop (nat ptrOffset) memory)) = 32"
proof -
  have "list_all (BasePattern_ok memory) (BasePattern_candidates cancelled memory v)"
    unfolding BasePattern_candidates_def by (rule BasePattern_loop_ok) simp
  then show ?thesis
    unfolding list_all_iff BasePattern_ok_def by fastforce
qed

theorem BasePattern_candidate_in_bounds_witness:
  "(0x208, 0x10100) \<in> set (BasePattern_candidates False test_memory None) \<and>
   (0x10000 :: int) < 0x10100 \<and> (0x10100 :: int) < int (length test_memory) - 0x20 \<and>
   slice test_memory 0x10100 (0x10100 + 0x20) = Inr (take 32 (drop (nat 0x10100) test_memory))"
proof -
  have m: "(0x208, 0x10100) \<in> set (BasePattern_candidates False test_memory None)"
    by (simp add: BasePattern_candidates_def BasePattern_loop_test)
  with BasePattern_candidate_in_bounds [of False test_memory None]
  have "(0x10000 :: int) < 0x10100 \<and> (0x10100 :: int) < int (length test_memory) - 0x20 \<and>
   slice test_memory 0x10100 (0x10100 + 0x20) = Inr (take 32 (drop (nat 0x10100) test_memory))"
    by fastforce
  with m show ?thesis by blast
qed

section \<open>Claims about \<open>SearchKey\<close>\<close>

text \<open>
  C4. On the chunk of the end-to-end scenario (0x10200 bytes, the 32 key bytes at 0x10100,
  the little-endian pointer 0x10100 at 0x200, the BasePattern signature at 0x208) and
  with no validator, \<open>SearchKey\<close> returns the hex encoding of the 32 bytes and
  \<open>found = true\<close>, in whatever order the four strategies finish.
\<close>

theorem SearchKey_test_memory:
  "set arrival = set NewV4Extractor_strategies \<Longrightarrow>
   SearchKey arrival False test_memory None =
     Some (Inr (''3031323334353637383961626364656630313233343536373839616263646566'', True))"
  unfolding SearchKey_def
proof (rule SearchKey_collect_unique [where ?s0.0 = BasePattern], goal_cases)
  case 1
  then show ?case by (simp add: NewV4Extractor_strategies_def)
next
  case 2
  show ?case by (simp add: BasePattern_Search_def BasePattern_loop_test)
next
  case (3 s)
  then show ?case
    by (cases s)
       (simp_all add: SetDBKeyLog_absent SQLiteSafety_absent WeixinDLL_Search_def
          WeixinDLL_patterns_absent test_memory_markers)
qed

theorem SearchKey_test_memory_witness:
  "set NewV4Extractor_strategies = set NewV4Extractor_strategies \<and>
   SearchKey NewV4Extractor_strategies False test_memory None =
     Some (Inr (''3031323334353637383961626364656630313233343536373839616263646566'', True))"
  using SearchKey_test_memory [of NewV4Extractor_strategies] by simp

text \<open>
  C5. The claim is that \<open>Search\<close> of the SetDBKeyLog, SQLiteSafety and WeixinDLL
  strategies returns on every chunk when the context is never cancelled. Each of them
  stores the result of \<open>bytes.Index(memory[index:], marker)\<close>, an offset into the
  sub-slice, back into \<open>index\<close>; on a chunk that holds the marker twice in a row the loop
  comes back to the same \<open>index\<close> for ever, whatever the validator.
\<close>

theorem marker_strategies_diverge:
  "SetDBKeyLog_Search False setdbkey_memory v = None \<and>
   SQLiteSafety_Search False unopened_memory v = None \<and>
   WeixinDLL_Search False weixin_memory v = None"
  by (simp add: SetDBKeyLog_diverges SQLiteSafety_diverges WeixinDLL_diverges)


text \<open>
  C6. The claim is that \<open>SearchKey\<close> returns \<open>("", false)\<close> on every chunk shorter than
  8 + 24 bytes. On the 9 bytes \<open>SetDBKeyA\<close> the pointer loop of \<open>findSetDBKeyCall\<close>
  compares against \<open>uint64(len(fullMemory))-32\<close>, which wraps, accepts the pointer and
  slices out of range: a panic. On the 20 bytes \<open>Weixin.dllWeixin.dll\<close> the WeixinDLL
  strategy never returns, and \<open>SearchKey\<close> waits for its result for ever.
\<close>

theorem SearchKey_short_chunk_fails:
  "length short_memory < 8 + length V4_keyPattern \<and>
   SearchKey NewV4Extractor_strategies False short_memory v = Some (Inl SliceBoundsOutOfRange) \<and>
   length weixin_memory < 8 + length V4_keyPattern \<and>
   SearchKey NewV4Extractor_strategies False weixin_memory v = None"
proof -
  have "length short_memory = 9" "length weixin_memory = 20"
    by (simp_all add: short_memory_eq weixin_memory_eq)
  then show ?thesis
    by (simp add: SearchKey_def NewV4Extractor_strategies_def short_memory_others
        short_memory_SetDBKeyLog weixin_memory_others WeixinDLL_diverges stops_def
        V4_keyPattern_def)
qed

section \<open>The operating system, as the extractors call it\<close>

text \<open>
  The calls into \<open>golang.org/x/sys/windows\<close>, \<open>runtime\<close> and \<open>pkg/util\<close> are parameters
  of the model: a record of functions. An error return is \<open>Inl\<close> or \<open>None\<close>. \<open>uintptr\<close> is
  a 64-bit word (the scanner is a 64-bit build), so address arithmetic wraps as in the
  code. \<open>CreateToolhelp32Snapshot\<close> gives the modules that \<open>Module32First\<close> and
  \<open>Module32Next\<close> walk through.
\<close>

unbundle bit_operations_syntax


type_synonym uintptr = "64 word"
type_synonym handle = nat

record MemoryBasicInformation =
  BaseAddress :: uintptr
  RegionSize :: uintptr
  State :: "32 word"
  Protect :: "32 word"
  Type :: "32 word"

record ModuleEntry32 =
  Module :: string
  ModBaseAddr :: uintptr
  ModBaseSize :: "32 word"

record os =
  OpenProcess :: "nat \<Rightarrow> string + handle"
  Is64Bit :: "handle \<Rightarrow> string + bool"
  CreateToolhelp32Snapshot :: "nat \<Rightarrow> ModuleEntry32 list option"
  VirtualQueryEx :: "handle \<Rightarrow> uintptr \<Rightarrow> MemoryBasicInformation option"
  ReadProcessMemory :: "handle \<Rightarrow> uintptr \<Rightarrow> uintptr \<Rightarrow> bytes option"
  NumCPU :: int
  GOARCH :: string


section \<open>The V3 worker\<close>

text \<open>
  \<open>V3_scan\<close> is the inner loop of \<open>V3Extractor.worker\<close> on one chunk, \<open>V3_worker\<close> the
  outer loop over the chunks it receives. \<open>seen\<close> records, latest first, every hit the
  loop examines: its index, the pointer before it, and whether the pointer was handed to
  \<open>validateKey\<close>, which reads 32 bytes there with \<open>ReadProcessMemory\<close>.
  \<open>full\<close> is whether the result channel (capacity 1) already holds a result, in which
  case the non-blocking send takes its \<open>default\<close> branch and the scan goes on.
\<close>

definition V3_keyPattern :: "bool \<Rightarrow> bytes" where
  "V3_keyPattern is64Bit =
     (let keyPattern = [0x20, 0x00, 0x00, 0x00, 0x00, 0x00, 0x00, 0x00]
      in if \<not> is64Bit then take 4 keyPattern else keyPattern)"

definition V3_ptrSize :: "bool \<Rightarrow> int" where
  "V3_ptrSize is64Bit = (if \<not> is64Bit then 4 else 8)"

definition V3_validateKey :: "os \<Rightarrow> validator \<Rightarrow> handle \<Rightarrow> nat \<Rightarrow> string" where
  "V3_validateKey sys vd h addr =
     (case ReadProcessMemory sys h (of_nat addr) 0x20 of
        None \<Rightarrow> ''''
      | Some keyData \<Rightarrow> if Validate vd keyData then hex_EncodeToString keyData else '''')"

datatype worker_exit = Cancelled | ChannelClosed | Sent string | Panicked panic | NextChunk

function V3_scan ::
  "bool \<Rightarrow> os \<Rightarrow> validator \<Rightarrow> handle \<Rightarrow> bool \<Rightarrow> bool \<Rightarrow> bytes \<Rightarrow> int \<Rightarrow>
     (int \<times> nat \<times> bool) list \<Rightarrow> (int \<times> nat \<times> bool) list \<times> worker_exit" where
  "V3_scan cancelled sys vd h is64Bit full memory index seen =
     (if cancelled then (seen, Cancelled)
      else case slice memory 0 index of
        Inl p \<Rightarrow> (seen, Panicked p)
      | Inr pre \<Rightarrow>
         (let i = bytes_LastIndex pre (V3_keyPattern is64Bit) in
          if i = -1 \<or> i - V3_ptrSize is64Bit < 0 then (seen, NextChunk)
          else case slice memory (i - V3_ptrSize is64Bit) i of
            Inl p \<Rightarrow> (seen, Panicked p)
          | Inr pb \<Rightarrow>
             (let ptrValue = le_uint pb in
              if ptrValue > 0x10000 \<and> ptrValue < 0x7FFFFFFFFFFF then
                (let key = V3_validateKey sys vd h ptrValue in
                 if key \<noteq> '''' \<and> \<not> full then ((i, ptrValue, True) # seen, Sent key)
                 else V3_scan cancelled sys vd h is64Bit full memory (i - 1)
                        ((i, ptrValue, True) # seen))
              else V3_scan cancelled sys vd h is64Bit full memory (i - 1)
                     ((i, ptrValue, False) # seen))))"
  by pat_completeness auto
termination
proof (relation "measure (\<lambda>(c, sys, vd, h, b, f, memory, index, seen). nat index)", goal_cases)
  case 1
  show ?case by simp
next
  case (2 c sys vd h b f memory index seen pre i pb ptrValue key)
  from 2(2) have "length pre = nat index" "0 \<le> index" by (auto dest: slice_length)
  with bytes_LastIndex_le [of pre "V3_keyPattern b"] 2(3,4) show ?case
    by (auto simp: V3_ptrSize_def split: if_splits)
next
  case (3 c sys vd h b f memory index seen pre i pb ptrValue)
  from 3(2) have "length pre = nat index" "0 \<le> index" by (auto dest: slice_length)
  with bytes_LastIndex_le [of pre "V3_keyPattern b"] 3(3,4) show ?case
    by (auto simp: V3_ptrSize_def split: if_splits)
qed

declare V3_scan.simps [simp del]

fun V3_worker ::
  "bool \<Rightarrow> os \<Rightarrow> validator \<Rightarrow> handle \<Rightarrow> bool \<Rightarrow> bool \<Rightarrow> bytes list \<Rightarrow>
     (int \<times> nat \<times> bool) list \<Rightarrow> (int \<times> nat \<times> bool) list \<times> worker_exit" where
  "V3_worker cancelled sys vd h is64Bit full [] seen =
     (if cancelled then (seen, Cancelled) else (seen, ChannelClosed))"
| "V3_worker cancelled sys vd h is64Bit full (memory # rest) seen =
     (if cancelled then (seen, Cancelled)
      else case V3_scan cancelled sys vd h is64Bit full memory (int (length memory)) seen of
        (seen', NextChunk) \<Rightarrow> V3_worker cancelled sys vd h is64Bit full rest seen'
      | r \<Rightarrow> r)"

definition V3_hit_ok :: "bool \<Rightarrow> bytes \<Rightarrow> int \<times> nat \<times> bool \<Rightarrow> bool" where
  "V3_hit_ok is64Bit memory e =
     (case e of (i, p, d) \<Rightarrow>
        V3_ptrSize is64Bit \<le> i \<and> has_at memory (V3_keyPattern is64Bit) (nat i) \<and>
        p = le_uint (take (nat (V3_ptrSize is64Bit)) (drop (nat (i - V3_ptrSize is64Bit)) memory)) \<and>
        d = (0x10000 < p \<and> p < 0x7FFFFFFFFFFF) \<and>
        p < 256 ^ nat (V3_ptrSize is64Bit))"

definition V3_seen_ok :: "bool \<Rightarrow> int \<times> nat \<times> bool \<Rightarrow> bool" where
  "V3_seen_ok is64Bit e =
     (case e of (i, p, d) \<Rightarrow>
        d = (0x10000 < p \<and> p < 0x7FFFFFFFFFFF) \<and> p < 256 ^ nat (V3_ptrSize is64Bit))"

lemma le_uint_bound: "le_uint bs < 256 ^ length bs"
proof (induction bs)
  case Nil
  show ?case by simp
next
  case (Cons b bs)
  have "unat b < 2 ^ LENGTH(8)" by (rule unsigned_less)
  then have "unat b < 256" by simp
  with Cons show ?case by simp
qed

lemma V3_scan_seen:
  assumes "list_all Q seen" and "\<And>e. V3_hit_ok is64Bit memory e \<Longrightarrow> Q e"
  shows "list_all Q (fst (V3_scan c sys vd h is64Bit full memory index seen))"
  using assms
proof (induction c sys vd h is64Bit full memory index seen rule: V3_scan.induct)
  case (1 c sys vd h is64Bit full memory index seen)
  note Q = "1.prems"(2)
  show ?case
  proof (cases "c")
    case True
    then show ?thesis using "1.prems"(1) by (subst V3_scan.simps) simp
  next
    case nc: False
    show ?thesis
    proof (cases "slice memory 0 index")
      case (Inl p)
      then show ?thesis using nc "1.prems"(1) by (subst V3_scan.simps) simp
    next
      case (Inr pre)
      define i where "i = bytes_LastIndex pre (V3_keyPattern is64Bit)"
      show ?thesis
      proof (cases "i = -1 \<or> i - V3_ptrSize is64Bit < 0")
        case True
        then show ?thesis using nc Inr "1.prems"(1) by (subst V3_scan.simps) (simp add: i_def)
      next
        case hit: False
        from Inr have pre: "pre = take (nat index) memory" "0 \<le> index" "index \<le> int (length memory)"
          by (auto simp: slice_def split: if_splits)
        from hit bytes_LastIndex_hit [of pre "V3_keyPattern is64Bit"]
        obtain k where k: "i = int k" "has_at pre (V3_keyPattern is64Bit) k"
            "k + length (V3_keyPattern is64Bit) \<le> length pre"
          by (auto simp: i_def)
        have hm: "has_at memory (V3_keyPattern is64Bit) (nat i)"
          using k pre has_at_take [of k "V3_keyPattern is64Bit" "nat index" memory] by simp
        have ib: "V3_ptrSize is64Bit \<le> i" "i \<le> int (length memory)" "0 \<le> V3_ptrSize is64Bit"
          using hit k pre by (auto simp: V3_ptrSize_def)
        define pb where "pb = take (nat (V3_ptrSize is64Bit)) (drop (nat (i - V3_ptrSize is64Bit)) memory)"
        have sl: "slice memory (i - V3_ptrSize is64Bit) i = Inr pb"
          using ib by (simp add: slice_def pb_def)
        define ptrValue where "ptrValue = le_uint pb"
        have "length pb = nat (V3_ptrSize is64Bit)" using sl by (auto dest: slice_length)
        then have small: "ptrValue < 256 ^ nat (V3_ptrSize is64Bit)"
          using le_uint_bound [of pb] by (simp add: ptrValue_def)
        have "V3_hit_ok is64Bit memory (i, ptrValue, 0x10000 < ptrValue \<and> ptrValue < 0x7FFFFFFFFFFF)"
          using hm ib small unfolding V3_hit_ok_def ptrValue_def pb_def by simp
        then have ok: "Q (i, ptrValue, 0x10000 < ptrValue \<and> ptrValue < 0x7FFFFFFFFFFF)"
          by (rule Q)
        show ?thesis
        proof (cases "ptrValue > 0x10000 \<and> ptrValue < 0x7FFFFFFFFFFF")
          case False
          with ok have ok': "list_all Q ((i, ptrValue, False) # seen)"
            using "1.prems"(1) by simp
          from "1.IH"(2) [OF nc Inr i_def hit sl ptrValue_def False ok' Q]
          show ?thesis
            using nc Inr hit sl False
            by (subst V3_scan.simps)
               (auto simp: i_def [symmetric] ptrValue_def [symmetric] Let_def)
        next
          case True
          with ok have ok': "list_all Q ((i, ptrValue, True) # seen)"
            using "1.prems"(1) by simp
          define key where "key = V3_validateKey sys vd h ptrValue"
          show ?thesis
          proof (cases "key \<noteq> '''' \<and> \<not> full")
            case s: True
            then show ?thesis
              using nc Inr hit sl True ok'
              by (subst V3_scan.simps)
                 (simp add: i_def [symmetric] ptrValue_def [symmetric] key_def [symmetric] Let_def)
          next
            case s: False
            from "1.IH"(1) [OF nc Inr i_def hit sl ptrValue_def True key_def s ok' Q]
            show ?thesis
              using nc Inr hit sl True s
              by (subst V3_scan.simps)
                 (auto simp: i_def [symmetric] ptrValue_def [symmetric] key_def [symmetric] Let_def)
          qed
        qed
      qed
    qed
  qed
qed

lemma V3_hit_seen: "V3_hit_ok is64Bit memory e \<Longrightarrow> V3_seen_ok is64Bit e"
  by (auto simp: V3_hit_ok_def V3_seen_ok_def)

lemma V3_worker_seen:
  "list_all (V3_seen_ok is64Bit) seen \<Longrightarrow>
   list_all (V3_seen_ok is64Bit) (fst (V3_worker c sys vd h is64Bit full chunks seen))"
proof (induction chunks arbitrary: seen)
  case Nil
  then show ?case by simp
next
  case (Cons memory rest)
  obtain seen' r where s: "V3_scan c sys vd h is64Bit full memory (int (length memory)) seen = (seen', r)"
    by (cases "V3_scan c sys vd h is64Bit full memory (int (length memory)) seen")
  have "list_all (V3_seen_ok is64Bit)
      (fst (V3_scan c sys vd h is64Bit full memory (int (length memory)) seen))"
    by (rule V3_scan_seen [OF Cons.prems V3_hit_seen])
  with s have ok: "list_all (V3_seen_ok is64Bit) seen'" by simp
  show ?case
  proof (cases c)
    case True
    then show ?thesis using Cons.prems by simp
  next
    case False
    then show ?thesis using s ok Cons.IH [OF ok] by (cases r) simp_all
  qed
qed

section \<open>Region enumeration\<close>

text \<open>
  \<open>findMemory\<close> of V3 and of V4 (the later of the two V4 versions in the source; the
  earlier one lacks only the cancellation check at the head of the loop). Nothing bounds
  the number of iterations (a region of size 0 repeats for ever), so the loop takes
  \<open>fuel\<close>: \<open>StillRunning\<close> is a producer that has not returned yet, and the trace holds
  what it did so far. The trace has one entry for every \<open>ReadProcessMemory\<close> call: the
  region queried, the address and size read, the result, and whether the chunk was sent
  on the chunk queue. When the context is cancelled the \<open>select\<close> on the send returns.
\<close>


definition PAGE_READWRITE :: "32 word" where "PAGE_READWRITE = 0x04"
definition PAGE_WRITECOPY :: "32 word" where "PAGE_WRITECOPY = 0x08"
definition PAGE_EXECUTE_READWRITE :: "32 word" where "PAGE_EXECUTE_READWRITE = 0x40"
definition PAGE_EXECUTE_WRITECOPY :: "32 word" where "PAGE_EXECUTE_WRITECOPY = 0x80"
definition MEM_COMMIT :: "32 word" where "MEM_COMMIT = 0x1000"
definition MEM_PRIVATE :: "32 word" where "MEM_PRIVATE = 0x20000"

definition V3ModuleName :: string where "V3ModuleName = ''WeChatWin.dll''"
definition MaxWorkers :: int where "MaxWorkers = 16"

datatype error =
  ErrWeChatOffline | OpenProcessFailed string | Is64BitFailed string
  | ErrWeChatDLLNotFound | ErrNoValidKey | CtxErr | Crashed panic

definition FindModule :: "os \<Rightarrow> nat \<Rightarrow> string \<Rightarrow> ModuleEntry32 option" where
  "FindModule sys pid name =
     (case CreateToolhelp32Snapshot sys pid of
        None \<Rightarrow> None
      | Some modules \<Rightarrow> List.find (\<lambda>m. Module m = name) modules)"

record region_read =
  region :: MemoryBasicInformation
  at :: uintptr
  nbytes :: uintptr
  chunk :: "bytes option"
  emitted :: bool

datatype producer_exit = Returned "error option" | StillRunning

fun V3_findMemory_loop ::
  "nat \<Rightarrow> os \<Rightarrow> bool \<Rightarrow> handle \<Rightarrow> uintptr \<Rightarrow> uintptr \<Rightarrow> region_read list \<Rightarrow>
     region_read list \<times> producer_exit" where
  "V3_findMemory_loop 0 sys cancelled h endAddr currentAddr tr = (tr, StillRunning)"
| "V3_findMemory_loop (Suc fuel) sys cancelled h endAddr currentAddr tr =
     (if \<not> currentAddr < endAddr then (tr, Returned None)
      else case VirtualQueryEx sys h currentAddr of
        None \<Rightarrow> (tr, Returned None)
      | Some mbi \<Rightarrow>
         if RegionSize mbi < 100 * 1024
         then V3_findMemory_loop fuel sys cancelled h endAddr (currentAddr + RegionSize mbi) tr
         else
           (let isWritable =
                  (Protect mbi AND (PAGE_READWRITE OR PAGE_WRITECOPY OR PAGE_EXECUTE_READWRITE
                      OR PAGE_EXECUTE_WRITECOPY)) > 0;
                next = BaseAddress mbi + RegionSize mbi
            in if isWritable \<and> State mbi = MEM_COMMIT then
                 (let regionSize =
                        (if currentAddr + RegionSize mbi > endAddr then endAddr - currentAddr
                         else RegionSize mbi);
                      r = \<lparr>region = mbi, at = currentAddr, nbytes = regionSize,
                           chunk = ReadProcessMemory sys h currentAddr regionSize, emitted = False\<rparr>
                  in if chunk r \<noteq> None then
                       (if cancelled then (tr @ [r], Returned None)
                        else V3_findMemory_loop fuel sys cancelled h endAddr next
                               (tr @ [r\<lparr>emitted := True\<rparr>]))
                     else V3_findMemory_loop fuel sys cancelled h endAddr next (tr @ [r]))
               else V3_findMemory_loop fuel sys cancelled h endAddr next tr))"

definition V3_findMemory ::
  "nat \<Rightarrow> os \<Rightarrow> bool \<Rightarrow> handle \<Rightarrow> nat \<Rightarrow> region_read list \<times> producer_exit" where
  "V3_findMemory fuel sys cancelled h pid =
     (case FindModule sys pid V3ModuleName of
        None \<Rightarrow> ([], Returned (Some ErrWeChatDLLNotFound))
      | Some module \<Rightarrow>
         (let baseAddr = ModBaseAddr module;
              endAddr = baseAddr + ucast (ModBaseSize module)
          in V3_findMemory_loop fuel sys cancelled h endAddr baseAddr []))"

fun V4_findMemory_loop ::
  "nat \<Rightarrow> os \<Rightarrow> bool \<Rightarrow> handle \<Rightarrow> uintptr \<Rightarrow> uintptr \<Rightarrow> region_read list \<Rightarrow>
     region_read list \<times> producer_exit" where
  "V4_findMemory_loop 0 sys cancelled h maxAddr currentAddr tr = (tr, StillRunning)"
| "V4_findMemory_loop (Suc fuel) sys cancelled h maxAddr currentAddr tr =
     (if \<not> currentAddr < maxAddr then (tr, Returned None)
      else if cancelled then (tr, Returned None)
      else case VirtualQueryEx sys h currentAddr of
        None \<Rightarrow> (tr, Returned None)
      | Some memInfo \<Rightarrow>
         if RegionSize memInfo < 1024 * 1024
         then V4_findMemory_loop fuel sys cancelled h maxAddr (currentAddr + RegionSize memInfo) tr
         else
           (let next = BaseAddress memInfo + RegionSize memInfo
            in if State memInfo = MEM_COMMIT \<and> (Protect memInfo AND PAGE_READWRITE) \<noteq> 0
                    \<and> Type memInfo = MEM_PRIVATE then
                 (let regionSize =
                        (if currentAddr + RegionSize memInfo > maxAddr then maxAddr - currentAddr
                         else RegionSize memInfo);
                      r = \<lparr>region = memInfo, at = currentAddr, nbytes = regionSize,
                           chunk = ReadProcessMemory sys h currentAddr regionSize, emitted = False\<rparr>
                  in if chunk r \<noteq> None then
                       (if cancelled then (tr @ [r], Returned None)
                        else V4_findMemory_loop fuel sys cancelled h maxAddr next
                               (tr @ [r\<lparr>emitted := True\<rparr>]))
                     else V4_findMemory_loop fuel sys cancelled h maxAddr next (tr @ [r]))
               else V4_findMemory_loop fuel sys cancelled h maxAddr next tr))"

definition V4_findMemory ::
  "nat \<Rightarrow> os \<Rightarrow> bool \<Rightarrow> handle \<Rightarrow> region_read list \<times> producer_exit" where
  "V4_findMemory fuel sys cancelled h =
     (let minAddr = 0x10000;
          maxAddr = (if GOARCH sys = ''amd64'' then 0x7FFFFFFFFFFF else 0x7FFFFFFF)
      in V4_findMemory_loop fuel sys cancelled h maxAddr minAddr [])"

definition chunks_of :: "region_read list \<Rightarrow> bytes list" where
  "chunks_of tr = concat (map (\<lambda>r. if emitted r then (case chunk r of Some m \<Rightarrow> [m] | None \<Rightarrow> []) else []) tr)"

definition read_ok :: "os \<Rightarrow> handle \<Rightarrow> uintptr \<Rightarrow> region_read \<Rightarrow> bool" where
  "read_ok sys h threshold r =
     (VirtualQueryEx sys h (at r) = Some (region r) \<and>
      \<not> RegionSize (region r) < threshold \<and>
      State (region r) = MEM_COMMIT \<and>
      chunk r = ReadProcessMemory sys h (at r) (nbytes r) \<and>
      (emitted r \<longrightarrow> chunk r \<noteq> None))"

lemma read_ok_new:
  "read_ok sys h thr \<lparr>region = mbi, at = cur, nbytes = n, chunk = ch, emitted = e\<rparr> =
     (VirtualQueryEx sys h cur = Some mbi \<and> \<not> RegionSize mbi < thr \<and> State mbi = MEM_COMMIT \<and>
      ch = ReadProcessMemory sys h cur n \<and> (e \<longrightarrow> ch \<noteq> None))"
  by (simp add: read_ok_def)

lemma V3_findMemory_loop_ok:
  "list_all (read_ok sys h 102400) tr \<Longrightarrow>
   list_all (read_ok sys h 102400) (fst (V3_findMemory_loop fuel sys c h endAddr cur tr))"
proof (induction fuel arbitrary: cur tr c)
  case 0
  then show ?case by simp
next
  case (Suc fuel)
  show ?case
  proof (cases "VirtualQueryEx sys h cur")
    case None
    then show ?thesis using Suc.prems by simp
  next
    case (Some mbi)
    show ?thesis
      using Some Suc.prems
      by (auto simp: Let_def read_ok_new intro!: Suc.IH)
  qed
qed

lemma V4_findMemory_loop_ok:
  "list_all (read_ok sys h 1048576) tr \<Longrightarrow>
   list_all (read_ok sys h 1048576) (fst (V4_findMemory_loop fuel sys c h maxAddr cur tr))"
proof (induction fuel arbitrary: cur tr c)
  case 0
  then show ?case by simp
next
  case (Suc fuel)
  show ?case
  proof (cases "VirtualQueryEx sys h cur")
    case None
    then show ?thesis using Suc.prems by simp
  next
    case (Some mbi)
    show ?thesis
      using Some Suc.prems
      by (auto simp: Let_def read_ok_new intro!: Suc.IH)
  qed
qed

section \<open>\<open>Extract\<close>\<close>

text \<open>
  \<open>model.Process\<close> is declared outside the source files at hand; \<open>Extract\<close> reads its
  \<open>PID\<close> and \<open>Status\<close>. \<open>extract_run\<close> is what a call did: what it returned (\<open>None\<close> while
  it has not), whether it called \<open>OpenProcess\<close>, and how many worker goroutines it started.

  \<open>V3_Extract\<close> runs the pipeline on one schedule: the producer runs, the chunks it sent
  are scanned in queue order, and the first validated key is the result. The error
  \<open>findMemory\<close> returns is logged by the producer goroutine and goes no further.
  \<open>V4_Extract\<close> takes the pairs sent on the result channel before it is closed as a
  parameter, \<open>received\<close>; \<open>V4_collect\<close> is its receive loop, \<open>V4_merge\<close> the two
  assignments in the loop body, \<open>V4_closed\<close> the branch taken when the channel is closed.
  \<open>seen\<close> records the two slots after each result the loop has processed, and
  \<open>V4_slots\<close> is that record for a whole call. Both V4 versions in the source have the
  same loop.
\<close>


datatype status = StatusOnline | StatusOffline

record Process =
  PID :: nat
  Status :: status

definition workerCount :: "os \<Rightarrow> int" where
  "workerCount sys =
     (let workerCount = NumCPU sys;
          workerCount = (if workerCount < 2 then 2 else workerCount);
          workerCount = (if workerCount > MaxWorkers then MaxWorkers else workerCount)
      in workerCount)"

record extract_run =
  returned :: "(string \<times> string \<times> error option) option"
  OpenProcess_called :: bool
  workers_started :: nat

definition V3_Extract :: "nat \<Rightarrow> os \<Rightarrow> validator \<Rightarrow> bool \<Rightarrow> Process \<Rightarrow> extract_run" where
  "V3_Extract fuel sys vd cancelled proc =
     (if Status proc = StatusOffline
      then \<lparr>returned = Some ('''', '''', Some ErrWeChatOffline),
             OpenProcess_called = False, workers_started = 0\<rparr>
      else case OpenProcess sys (PID proc) of
        Inl e \<Rightarrow> \<lparr>returned = Some ('''', '''', Some (OpenProcessFailed e)),
                   OpenProcess_called = True, workers_started = 0\<rparr>
      | Inr h \<Rightarrow>
         (case Is64Bit sys h of
            Inl e \<Rightarrow> \<lparr>returned = Some ('''', '''', Some (Is64BitFailed e)),
                       OpenProcess_called = True, workers_started = 0\<rparr>
          | Inr is64Bit \<Rightarrow>
             (let n = length [0 ..< nat (workerCount sys)];
                  produced = V3_findMemory fuel sys cancelled h (PID proc);
                  worked = V3_worker cancelled sys vd h is64Bit False (chunks_of (fst produced)) []
              in \<lparr>returned =
                    (if cancelled then Some ('''', '''', Some CtxErr)
                     else case snd worked of
                       Sent result \<Rightarrow>
                         if result \<noteq> '''' then Some (result, '''', None)
                         else Some ('''', '''', Some ErrNoValidKey)
                     | Panicked p \<Rightarrow> Some ('''', '''', Some (Crashed p))
                     | _ \<Rightarrow>
                        (case snd produced of
                           StillRunning \<Rightarrow> None
                         | Returned e \<Rightarrow> Some ('''', '''', Some ErrNoValidKey))),
                   OpenProcess_called = True, workers_started = n\<rparr>)))"

definition V4_merge :: "string \<times> string \<Rightarrow> string \<times> string \<Rightarrow> string \<times> string" where
  "V4_merge final result =
     (let finalDataKey = (if fst result \<noteq> '''' then fst result else fst final);
          finalImgKey = (if snd result \<noteq> '''' then snd result else snd final)
      in (finalDataKey, finalImgKey))"

definition V4_closed :: "string \<times> string \<Rightarrow> string \<times> string \<times> error option" where
  "V4_closed final =
     (if fst final \<noteq> '''' \<or> snd final \<noteq> '''' then (fst final, snd final, None)
      else ('''', '''', Some ErrNoValidKey))"

fun V4_collect ::
  "bool \<Rightarrow> string \<times> string \<Rightarrow> (string \<times> string) list \<Rightarrow> (string \<times> string) list \<Rightarrow>
     (string \<times> string) list \<times> (string \<times> string \<times> error option)" where
  "V4_collect cancelled final [] seen =
     (seen, if cancelled then ('''', '''', Some CtxErr) else V4_closed final)"
| "V4_collect cancelled final (result # rest) seen =
     (if cancelled then (seen, ('''', '''', Some CtxErr))
      else let final = V4_merge final result;
               seen = seen @ [final]
           in if fst final \<noteq> '''' \<and> snd final \<noteq> '''' then (seen, (fst final, snd final, None))
              else V4_collect cancelled final rest seen)"

definition V4_slots :: "bool \<Rightarrow> (string \<times> string) list \<Rightarrow> (string \<times> string) list" where
  "V4_slots cancelled received = fst (V4_collect cancelled ('''', '''') received [])"

definition V4_Extract :: "os \<Rightarrow> bool \<Rightarrow> Process \<Rightarrow> (string \<times> string) list \<Rightarrow> extract_run" where
  "V4_Extract sys cancelled proc received =
     (if Status proc = StatusOffline
      then \<lparr>returned = Some ('''', '''', Some ErrWeChatOffline),
             OpenProcess_called = False, workers_started = 0\<rparr>
      else case OpenProcess sys (PID proc) of
        Inl e \<Rightarrow> \<lparr>returned = Some ('''', '''', Some (OpenProcessFailed e)),
                   OpenProcess_called = True, workers_started = 0\<rparr>
      | Inr h \<Rightarrow>
         (let n = length [0 ..< nat (workerCount sys)]
          in \<lparr>returned = Some (snd (V4_collect cancelled ('''', '''') received [])),
                OpenProcess_called = True, workers_started = n\<rparr>))"

text \<open>
  In the words of the statement about the slots: the last non-empty string of a list, the
  empty string when it has none.
\<close>

definition last_nonempty :: "string list \<Rightarrow> string" where
  "last_nonempty xs = last ('''' # filter (\<lambda>x. x \<noteq> '''') xs)"

lemma foldl_V4_merge:
  "foldl V4_merge final ps =
     (last (fst final # filter (\<lambda>x. x \<noteq> '''') (map fst ps)),
      last (snd final # filter (\<lambda>x. x \<noteq> '''') (map snd ps)))"
  by (induction ps arbitrary: final) (auto simp: V4_merge_def)

lemma V4_collect_trace:
  "\<exists>n \<le> length rs.
     fst (V4_collect c final rs seen) =
       seen @ map (\<lambda>k. foldl V4_merge final (take (Suc k) rs)) [0 ..< n] \<and>
     (\<forall>k. Suc k < n \<longrightarrow>
        fst (foldl V4_merge final (take (Suc k) rs)) = '''' \<or>
        snd (foldl V4_merge final (take (Suc k) rs)) = '''') \<and>
     (c \<longrightarrow> n = 0) \<and>
     (\<not> c \<longrightarrow>
        (n < length rs \<longrightarrow> 0 < n \<and> fst (foldl V4_merge final (take n rs)) \<noteq> '''' \<and>
           snd (foldl V4_merge final (take n rs)) \<noteq> '''') \<and>
        snd (V4_collect c final rs seen) = V4_closed (foldl V4_merge final (take n rs)))"
proof (induction rs arbitrary: final seen)
  case Nil
  show ?case by (rule exI [of _ 0]) simp
next
  case (Cons r rest)
  let ?f = "V4_merge final r"
  show ?case
  proof (cases c)
    case True
    then show ?thesis by (intro exI [of _ 0]) simp
  next
    case nc: False
    show ?thesis
    proof (cases "fst ?f \<noteq> '''' \<and> snd ?f \<noteq> ''''")
      case True
      with nc show ?thesis
        by (intro exI [of _ 1]) (simp add: Let_def V4_closed_def)
    next
      case False
      from Cons.IH [of ?f "seen @ [?f]"] obtain n where n: "n \<le> length rest"
        "fst (V4_collect c ?f rest (seen @ [?f])) =
           (seen @ [?f]) @ map (\<lambda>k. foldl V4_merge ?f (take (Suc k) rest)) [0 ..< n]"
        "\<forall>k. Suc k < n \<longrightarrow>
           fst (foldl V4_merge ?f (take (Suc k) rest)) = '''' \<or>
           snd (foldl V4_merge ?f (take (Suc k) rest)) = ''''"
        "n < length rest \<longrightarrow> 0 < n \<and> fst (foldl V4_merge ?f (take n rest)) \<noteq> '''' \<and>
           snd (foldl V4_merge ?f (take n rest)) \<noteq> ''''"
        "snd (V4_collect c ?f rest (seen @ [?f])) = V4_closed (foldl V4_merge ?f (take n rest))"
        using nc by blast
      have step: "V4_collect c final (r # rest) seen = V4_collect c ?f rest (seen @ [?f])"
        using nc False by (auto simp: Let_def)
      have m: "map (\<lambda>k. foldl V4_merge final (take (Suc k) (r # rest))) [0 ..< Suc n] =
               ?f # map (\<lambda>k. foldl V4_merge ?f (take (Suc k) rest)) [0 ..< n]"
        by (simp add: map_upt_Suc del: upt_Suc)
      have low: "fst (foldl V4_merge final (take (Suc k) (r # rest))) = '''' \<or>
                 snd (foldl V4_merge final (take (Suc k) (r # rest))) = ''''" if "Suc k < Suc n" for k
      proof (cases k)
        case 0
        then show ?thesis using False by auto
      next
        case (Suc j)
        then show ?thesis using that n(3) by simp
      qed
      show ?thesis
      proof (intro exI [of _ "Suc n"] conjI allI impI)
        show "Suc n \<le> length (r # rest)" using n(1) by simp
        show "fst (V4_collect c final (r # rest) seen) =
              seen @ map (\<lambda>k. foldl V4_merge final (take (Suc k) (r # rest))) [0 ..< Suc n]"
          unfolding step m using n(2) by simp
        show "fst (foldl V4_merge final (take (Suc k) (r # rest))) = '''' \<or>
              snd (foldl V4_merge final (take (Suc k) (r # rest))) = ''''" if "Suc k < Suc n" for k
          using that by (rule low)
        show "Suc n = 0" if c using that nc by simp
        show "0 < Suc n" by simp
        show "fst (foldl V4_merge final (take (Suc n) (r # rest))) \<noteq> ''''"
          if "Suc n < length (r # rest)" using that n(4) by simp
        show "snd (foldl V4_merge final (take (Suc n) (r # rest))) \<noteq> ''''"
          if "Suc n < length (r # rest)" using that n(4) by simp
        show "snd (V4_collect c final (r # rest) seen) =
              V4_closed (foldl V4_merge final (take (Suc n) (r # rest)))"
          unfolding step using n(5) by simp
      qed
    qed
  qed
qed

section \<open>Concrete inputs\<close>

definition sys1 :: os where
  "sys1 =
     \<lparr>OpenProcess = (\<lambda>pid. Inr 7),
      Is64Bit = (\<lambda>h. Inr True),
      CreateToolhelp32Snapshot = (\<lambda>pid. Some
         [\<lparr>Module = ''WeChatWin.dll'', ModBaseAddr = 0x10000000, ModBaseSize = 0x40000\<rparr>]),
      VirtualQueryEx = (\<lambda>h a.
         if a = 0x10000000 then Some \<lparr>BaseAddress = 0x10000000, RegionSize = 0x1000,
              State = MEM_COMMIT, Protect = PAGE_READWRITE, Type = MEM_PRIVATE\<rparr>
         else if a = 0x10001000 then Some \<lparr>BaseAddress = 0x10001000, RegionSize = 0x20000,
              State = MEM_COMMIT, Protect = PAGE_READWRITE, Type = MEM_PRIVATE\<rparr>
         else if a = 0x10000 then Some \<lparr>BaseAddress = 0x10000, RegionSize = 0x1000,
              State = MEM_COMMIT, Protect = PAGE_READWRITE, Type = MEM_PRIVATE\<rparr>
         else if a = 0x11000 then Some \<lparr>BaseAddress = 0x11000, RegionSize = 0x100000,
              State = MEM_COMMIT, Protect = PAGE_READWRITE, Type = MEM_PRIVATE\<rparr>
         else None),
      ReadProcessMemory = (\<lambda>h a n. if a = 0x20000 then None else Some (replicate (unat n) 0)),
      NumCPU = 8,
      GOARCH = ''amd64''\<rparr>"

definition vd1 :: validator where
  "vd1 = \<lparr>Validate = (\<lambda>k. False), ValidateImgKey = (\<lambda>k. False)\<rparr>"

definition online1 :: Process where
  "online1 = \<lparr>PID = 4242, Status = StatusOnline\<rparr>"

definition region1 :: region_read where
  "region1 =
     \<lparr>region = \<lparr>BaseAddress = 0x10001000, RegionSize = 0x20000,
              State = MEM_COMMIT, Protect = PAGE_READWRITE, Type = MEM_PRIVATE\<rparr>,
      at = 0x10001000, nbytes = 0x20000, chunk = Some (replicate 0x20000 0), emitted = True\<rparr>"

definition region2 :: region_read where
  "region2 =
     \<lparr>region = \<lparr>BaseAddress = 0x11000, RegionSize = 0x100000,
              State = MEM_COMMIT, Protect = PAGE_READWRITE, Type = MEM_PRIVATE\<rparr>,
      at = 0x11000, nbytes = 0x100000, chunk = Some (replicate 0x100000 0), emitted = True\<rparr>"

lemma sys1_V3_findMemory: "V3_findMemory 3 sys1 False 7 4242 = ([region1], Returned None)"
  by (simp add: V3_findMemory_def FindModule_def sys1_def V3ModuleName_def numeral_3_eq_3
        region1_def MEM_COMMIT_def PAGE_READWRITE_def PAGE_WRITECOPY_def
        PAGE_EXECUTE_READWRITE_def PAGE_EXECUTE_WRITECOPY_def Let_def)

lemma sys1_V4_findMemory: "V4_findMemory 3 sys1 False 7 = ([region2], Returned None)"
  by (simp add: V4_findMemory_def sys1_def numeral_3_eq_3
        region2_def MEM_COMMIT_def PAGE_READWRITE_def MEM_PRIVATE_def Let_def)

definition chunk32 :: bytes where
  "chunk32 = [0x00, 0x00, 0x00, 0x80, 0x20, 0x00, 0x00, 0x00]"

definition chunk64 :: bytes where
  "chunk64 = [0x00, 0x00, 0x02, 0x00, 0x00, 0x00, 0x00, 0x00,
              0x20, 0x00, 0x00, 0x00, 0x00, 0x00, 0x00, 0x00]"

lemma chunk32_LastIndex:
  "bytes_LastIndex chunk32 (V3_keyPattern False) = 4"
  "bytes_LastIndex (take 3 chunk32) (V3_keyPattern False) = -1"
  unfolding chunk32_def V3_keyPattern_def by code_simp+

lemma chunk64_LastIndex:
  "bytes_LastIndex chunk64 (V3_keyPattern True) = 8"
  "bytes_LastIndex (take 7 chunk64) (V3_keyPattern True) = -1"
  unfolding chunk64_def V3_keyPattern_def by code_simp+

lemma chunk32_scan:
  "V3_scan False sys1 vd1 7 False False chunk32 (int (length chunk32)) [] =
     ([(4, 0x80000000, True)], NextChunk)"
proof -
  have l: "length chunk32 = 8" by (simp add: chunk32_def)
  have s: "slice chunk32 0 8 = Inr chunk32" "slice chunk32 0 3 = Inr (take 3 chunk32)"
    "slice chunk32 0 4 = Inr [0x00, 0x00, 0x00, 0x80]"
    by (simp_all add: slice_def l) (simp add: chunk32_def)
  have k: "V3_validateKey sys1 vd1 7 0x80000000 = ''''"
    by (simp add: V3_validateKey_def sys1_def vd1_def)
  have "V3_scan False sys1 vd1 7 False False chunk32 3 [(4, 0x80000000, True)] =
      ([(4, 0x80000000, True)], NextChunk)"
    by (subst V3_scan.simps) (simp add: s chunk32_LastIndex)
  then show ?thesis
    by (subst V3_scan.simps) (simp add: l s chunk32_LastIndex V3_ptrSize_def k)
qed

lemma chunk64_scan:
  "V3_scan False sys1 vd1 7 True False chunk64 (int (length chunk64)) [] =
     ([(8, 0x20000, True)], NextChunk)"
proof -
  have l: "length chunk64 = 16" by (simp add: chunk64_def)
  have s: "slice chunk64 0 16 = Inr chunk64" "slice chunk64 0 7 = Inr (take 7 chunk64)"
    "slice chunk64 0 8 = Inr [0x00, 0x00, 0x02, 0x00, 0x00, 0x00, 0x00, 0x00]"
    by (simp_all add: slice_def l) (simp add: chunk64_def)
  have k: "V3_validateKey sys1 vd1 7 0x20000 = ''''"
    by (simp add: V3_validateKey_def sys1_def vd1_def)
  have "V3_scan False sys1 vd1 7 True False chunk64 7 [(8, 0x20000, True)] =
      ([(8, 0x20000, True)], NextChunk)"
    by (subst V3_scan.simps) (simp add: s chunk64_LastIndex)
  then show ?thesis
    by (subst V3_scan.simps) (simp add: l s chunk64_LastIndex V3_ptrSize_def k)
qed


section \<open>Claims about \<open>Extract\<close>, the V3 worker and region enumeration\<close>

text \<open>
  C1. The claim is that a key slot, once non-empty, is never replaced by a different
  value, the first non-empty value being kept. The loop assigns every non-empty value it
  receives. What holds: after each result the coordinator has processed, a slot holds the
  last non-empty value among the results processed so far, the empty string when there is
  none; so a non-empty slot is never emptied, and a later result with a different
  non-empty value replaces it. The coordinator processes results as long as one slot is
  empty; when the channel is closed and the context is not cancelled, it returns the last
  slots (\<open>ErrNoValidKey\<close> when both are empty).
\<close>

theorem V4_slots_last_nonempty:
  "(\<forall>k < length (V4_slots cancelled received).
      V4_slots cancelled received ! k =
        (last_nonempty (map fst (take (Suc k) received)),
         last_nonempty (map snd (take (Suc k) received))) \<and>
      (Suc k < length (V4_slots cancelled received) \<longrightarrow>
         fst (V4_slots cancelled received ! k) = '''' \<or>
         snd (V4_slots cancelled received ! k) = '''')) \<and>
   length (V4_slots cancelled received) \<le> length received \<and>
   (\<not> cancelled \<longrightarrow>
      (length (V4_slots cancelled received) < length received \<longrightarrow>
         V4_slots cancelled received \<noteq> [] \<and>
         fst (last (V4_slots cancelled received)) \<noteq> '''' \<and>
         snd (last (V4_slots cancelled received)) \<noteq> '''') \<and>
      snd (V4_collect cancelled ('''', '''') received []) =
        V4_closed (last (('''', '''') # V4_slots cancelled received)))"
proof -
  let ?g = "\<lambda>k. foldl V4_merge ('''', '''') (take (Suc k) received)"
  from V4_collect_trace [of received cancelled "('''', '''')" "[]"]
  obtain n where n: "n \<le> length received"
    "V4_slots cancelled received = map ?g [0 ..< n]"
    "\<forall>k. Suc k < n \<longrightarrow> fst (?g k) = '''' \<or> snd (?g k) = ''''"
    "\<not> cancelled \<longrightarrow>
        (n < length received \<longrightarrow> 0 < n \<and>
           fst (foldl V4_merge ('''', '''') (take n received)) \<noteq> '''' \<and>
           snd (foldl V4_merge ('''', '''') (take n received)) \<noteq> '''') \<and>
        snd (V4_collect cancelled ('''', '''') received []) =
          V4_closed (foldl V4_merge ('''', '''') (take n received))"
    unfolding V4_slots_def by auto
  have len: "length (V4_slots cancelled received) = n" using n(2) by simp
  have nth: "V4_slots cancelled received ! k = ?g k" if "k < n" for k
    using that n(2) by simp
  have g: "?g k = (last_nonempty (map fst (take (Suc k) received)),
                   last_nonempty (map snd (take (Suc k) received)))" for k
    by (simp add: foldl_V4_merge last_nonempty_def)
  have lst: "last (('''', '''') # V4_slots cancelled received) =
             foldl V4_merge ('''', '''') (take n received)"
  proof (cases n)
    case 0
    then show ?thesis using n(2) by simp
  next
    case (Suc m)
    then have "V4_slots cancelled received = map ?g [0 ..< m] @ [?g m]" using n(2) by simp
    then show ?thesis using Suc by simp
  qed
  have lst': "last (V4_slots cancelled received) = foldl V4_merge ('''', '''') (take n received)"
    if "0 < n" using that lst len by (cases "V4_slots cancelled received") auto
  show ?thesis
  proof (intro conjI allI impI)
    fix k assume k: "k < length (V4_slots cancelled received)"
    then show "V4_slots cancelled received ! k =
        (last_nonempty (map fst (take (Suc k) received)),
         last_nonempty (map snd (take (Suc k) received)))"
      using nth g len by simp
    assume "Suc k < length (V4_slots cancelled received)"
    then show "fst (V4_slots cancelled received ! k) = '''' \<or>
               snd (V4_slots cancelled received ! k) = ''''"
      using n(3) nth len by simp
  next
    show "length (V4_slots cancelled received) \<le> length received" using n(1) len by simp
  next
    assume nc: "\<not> cancelled"
    show "snd (V4_collect cancelled ('''', '''') received []) =
        V4_closed (last (('''', '''') # V4_slots cancelled received))"
      using n(4) nc lst by simp
    assume "length (V4_slots cancelled received) < length received"
    then have b: "0 < n" "fst (foldl V4_merge ('''', '''') (take n received)) \<noteq> ''''"
       "snd (foldl V4_merge ('''', '''') (take n received)) \<noteq> ''''"
      using n(4) nc len by auto
    show "V4_slots cancelled received \<noteq> []" using b(1) len by auto
    show "fst (last (V4_slots cancelled received)) \<noteq> ''''" using b lst' by simp
    show "snd (last (V4_slots cancelled received)) \<noteq> ''''" using b lst' by simp
  qed
qed

theorem V4_slots_last_nonempty_witness:
  "V4_slots False [(''aa'', ''''), (''bb'', ''''), ('''', ''cc''), (''dd'', '''')] =
     [(''aa'', ''''), (''bb'', ''''), (''bb'', ''cc'')] \<and>
   (1 :: nat) < length (V4_slots False [(''aa'', ''''), (''bb'', ''''), ('''', ''cc''), (''dd'', '''')]) \<and>
   V4_slots False [(''aa'', ''''), (''bb'', ''''), ('''', ''cc''), (''dd'', '''')] ! 1 =
     (last_nonempty (map fst (take (Suc 1) [(''aa'', ''''), (''bb'', ''''), ('''', ''cc''), (''dd'', '''')])),
      last_nonempty (map snd (take (Suc 1) [(''aa'', ''''), (''bb'', ''''), ('''', ''cc''), (''dd'', '''')]))) \<and>
   snd (V4_collect False ('''', '''') [(''aa'', ''''), (''bb'', ''''), ('''', ''cc''), (''dd'', '''')] []) =
     (''bb'', ''cc'', None)"
proof -
  have s: "V4_slots False [(''aa'', ''''), (''bb'', ''''), ('''', ''cc''), (''dd'', '''')] =
     [(''aa'', ''''), (''bb'', ''''), (''bb'', ''cc'')]"
    by (simp add: V4_slots_def V4_merge_def)
  have r: "snd (V4_collect False ('''', '''') [(''aa'', ''''), (''bb'', ''''), ('''', ''cc''), (''dd'', '''')] []) =
     (''bb'', ''cc'', None)"
    by (simp add: V4_merge_def)
  have l: "(1 :: nat) < length (V4_slots False [(''aa'', ''''), (''bb'', ''''), ('''', ''cc''), (''dd'', '''')])"
    by (simp add: s)
  with V4_slots_last_nonempty [of False "[(''aa'', ''''), (''bb'', ''''), ('''', ''cc''), (''dd'', '''')]"]
  have "V4_slots False [(''aa'', ''''), (''bb'', ''''), ('''', ''cc''), (''dd'', '''')] ! 1 =
     (last_nonempty (map fst (take (Suc 1) [(''aa'', ''''), (''bb'', ''''), ('''', ''cc''), (''dd'', '''')])),
      last_nonempty (map snd (take (Suc 1) [(''aa'', ''''), (''bb'', ''''), ('''', ''cc''), (''dd'', '''')])))"
    by blast
  with s r l show ?thesis by blast
qed

theorem V4_collect_overwrites:
  "V4_slots False [(''aa'', ''''), (''bb'', '''')] = [(''aa'', ''''), (''bb'', '''')] \<and>
   returned (V4_Extract sys1 False online1 [(''aa'', ''''), (''bb'', '''')]) =
     Some (''bb'', '''', None)"
  by (simp add: V4_slots_def V4_merge_def V4_closed_def V4_Extract_def online1_def sys1_def)

text \<open>
  C2. The claim is that V3 \<open>Extract\<close> returns \<open>WeChatDLLNotFound\<close> when the module is
  absent. \<open>findMemory\<close> does return that error, to the producer goroutine, which logs it;
  no chunk is produced, the result channel is closed empty and \<open>Extract\<close> returns
  \<open>ErrNoValidKey\<close>.
\<close>

theorem V3_Extract_module_absent:
  "fst (V3_findMemory fuel (sys\<lparr>CreateToolhelp32Snapshot := \<lambda>pid. Some []\<rparr>) False h pid) = [] \<and>
   snd (V3_findMemory fuel (sys\<lparr>CreateToolhelp32Snapshot := \<lambda>pid. Some []\<rparr>) False h pid) =
     Returned (Some ErrWeChatDLLNotFound) \<and>
   returned (V3_Extract fuel
      (sys\<lparr>OpenProcess := \<lambda>pid. Inr h, Is64Bit := \<lambda>h. Inr is64Bit,
           CreateToolhelp32Snapshot := \<lambda>pid. Some []\<rparr>)
      vd False \<lparr>PID = pid, Status = StatusOnline\<rparr>) =
     Some ('''', '''', Some ErrNoValidKey)"
  by (simp add: V3_Extract_def V3_findMemory_def FindModule_def chunks_of_def)


text \<open>
  C3. For every pattern hit the V3 worker examines, the candidate pointer is the
  \<open>ptrSize\<close> bytes before the hit, and it is dereferenced (read via \<open>ReadProcessMemory\<close>)
  exactly when \<open>0x10000 < ptr < 0x7FFFFFFFFFFF\<close>, the same test for 32-bit and 64-bit
  targets: never at or below \<open>0x10000\<close>, never at or above \<open>0x7FFFFFFFFFFF\<close>. A 32-bit
  target's pointer is a 4-byte value, below \<open>2^32\<close>, so the maximum \<open>0x7FFFFFFF\<close> is not
  enforced: an examined pointer above it is dereferenced.
\<close>

theorem V3_worker_dereferences:
  "(\<forall>(i, p, d) \<in> set (fst (V3_worker cancelled sys vd h is64Bit full chunks [])).
      d = (0x10000 < p \<and> p < 0x7FFFFFFFFFFF) \<and> p < 256 ^ nat (V3_ptrSize is64Bit)) \<and>
   (\<forall>(i, p, d) \<in> set (fst (V3_scan cancelled sys vd h is64Bit full memory (int (length memory)) [])).
      V3_ptrSize is64Bit \<le> i \<and> has_at memory (V3_keyPattern is64Bit) (nat i) \<and>
      p = le_uint (take (nat (V3_ptrSize is64Bit)) (drop (nat (i - V3_ptrSize is64Bit)) memory)) \<and>
      d = (0x10000 < p \<and> p < 0x7FFFFFFFFFFF) \<and> p < 256 ^ nat (V3_ptrSize is64Bit))"
proof -
  have "list_all (V3_seen_ok is64Bit) (fst (V3_worker cancelled sys vd h is64Bit full chunks []))"
    by (rule V3_worker_seen) simp
  moreover have "list_all (V3_hit_ok is64Bit memory)
      (fst (V3_scan cancelled sys vd h is64Bit full memory (int (length memory)) []))"
    by (rule V3_scan_seen) simp_all
  ultimately show ?thesis
    unfolding list_all_iff V3_seen_ok_def V3_hit_ok_def by blast
qed

theorem V3_worker_dereferences_witness:
  "(8, 0x20000, True) \<in> set (fst (V3_worker False sys1 vd1 7 True False [chunk64] [])) \<and>
   True = ((0x10000 :: nat) < 0x20000 \<and> (0x20000 :: nat) < 0x7FFFFFFFFFFF) \<and>
   (8, 0x20000, True) \<in> set (fst (V3_scan False sys1 vd1 7 True False chunk64 (int (length chunk64)) [])) \<and>
   has_at chunk64 (V3_keyPattern True) (nat 8)"
proof -
  have m: "(8, 0x20000, True) \<in> set (fst (V3_worker False sys1 vd1 7 True False [chunk64] []))"
    "(8, 0x20000, True) \<in> set (fst (V3_scan False sys1 vd1 7 True False chunk64 (int (length chunk64)) []))"
    by (simp_all add: chunk64_scan)
  with V3_worker_dereferences [of False sys1 vd1 7 True False "[chunk64]" chunk64]
  have "has_at chunk64 (V3_keyPattern True) (nat 8)" by fastforce
  with m show ?thesis by simp
qed

theorem V3_worker_32bit_above_max:
  "fst (V3_worker False sys1 vd1 7 False False [chunk32] []) = [(4, 0x80000000, True)] \<and>
   (0x80000000 :: nat) > 0x7FFFFFFF"
  by (simp add: chunk32_scan)

text \<open>
  C8. For an Offline process both \<open>Extract\<close>s return \<open>WeChatOffline\<close> with both keys
  empty, without calling \<open>OpenProcess\<close> and without starting a worker.
\<close>

theorem Extract_offline:
  "Status proc = StatusOffline \<Longrightarrow>
   V3_Extract fuel sys vd cancelled proc =
     \<lparr>returned = Some ('''', '''', Some ErrWeChatOffline),
       OpenProcess_called = False, workers_started = 0\<rparr> \<and>
   V4_Extract sys cancelled proc received =
     \<lparr>returned = Some ('''', '''', Some ErrWeChatOffline),
       OpenProcess_called = False, workers_started = 0\<rparr>"
  by (simp add: V3_Extract_def V4_Extract_def)

theorem Extract_offline_witness:
  "Status \<lparr>PID = 4242, Status = StatusOffline\<rparr> = StatusOffline \<and>
   V3_Extract 0 sys1 vd1 False \<lparr>PID = 4242, Status = StatusOffline\<rparr> =
     \<lparr>returned = Some ('''', '''', Some ErrWeChatOffline),
       OpenProcess_called = False, workers_started = 0\<rparr> \<and>
   V4_Extract sys1 False \<lparr>PID = 4242, Status = StatusOffline\<rparr> [] =
     \<lparr>returned = Some ('''', '''', Some ErrWeChatOffline),
       OpenProcess_called = False, workers_started = 0\<rparr>"
  using Extract_offline [of "\<lparr>PID = 4242, Status = StatusOffline\<rparr>" 0 sys1 vd1 False "[]"]
  by simp


text \<open>
  C9. Every \<open>ReadProcessMemory\<close> call of \<open>findMemory\<close> is on a region, as
  \<open>VirtualQueryEx\<close> reported it at that address, that is committed and whose size is not
  below the threshold (100 KiB for V3, 1 MiB for V4); every chunk sent to the queue was
  read so. This holds after any number of iterations.
\<close>

theorem findMemory_reads_large_committed:
  "(\<forall>r \<in> set (fst (V3_findMemory fuel sys cancelled h pid)).
      VirtualQueryEx sys h (at r) = Some (region r) \<and>
      \<not> RegionSize (region r) < 100 * 1024 \<and> State (region r) = MEM_COMMIT \<and>
      chunk r = ReadProcessMemory sys h (at r) (nbytes r) \<and> (emitted r \<longrightarrow> chunk r \<noteq> None)) \<and>
   (\<forall>r \<in> set (fst (V4_findMemory fuel sys cancelled h)).
      VirtualQueryEx sys h (at r) = Some (region r) \<and>
      \<not> RegionSize (region r) < 1024 * 1024 \<and> State (region r) = MEM_COMMIT \<and>
      chunk r = ReadProcessMemory sys h (at r) (nbytes r) \<and> (emitted r \<longrightarrow> chunk r \<noteq> None))"
proof -
  have "list_all (read_ok sys h 102400) (fst (V3_findMemory fuel sys cancelled h pid))"
    by (auto simp: V3_findMemory_def Let_def split: option.splits intro!: V3_findMemory_loop_ok)
  moreover have "list_all (read_ok sys h 1048576) (fst (V4_findMemory fuel sys cancelled h))"
    by (auto simp: V4_findMemory_def Let_def intro!: V4_findMemory_loop_ok)
  moreover have "(100 * 1024 :: uintptr) = 102400" "(1024 * 1024 :: uintptr) = 1048576"
    by simp_all
  ultimately show ?thesis
    unfolding list_all_iff read_ok_def by metis
qed

theorem findMemory_reads_large_committed_witness:
  "region1 \<in> set (fst (V3_findMemory 3 sys1 False 7 4242)) \<and>
   \<not> RegionSize (region region1) < 100 * 1024 \<and> State (region region1) = MEM_COMMIT \<and>
   region2 \<in> set (fst (V4_findMemory 3 sys1 False 7)) \<and>
   \<not> RegionSize (region region2) < 1024 * 1024 \<and> State (region region2) = MEM_COMMIT"
proof -
  have m: "region1 \<in> set (fst (V3_findMemory 3 sys1 False 7 4242))"
    "region2 \<in> set (fst (V4_findMemory 3 sys1 False 7))"
    by (simp_all add: sys1_V3_findMemory sys1_V4_findMemory)
  with findMemory_reads_large_committed [of 3 sys1 False 7 4242]
  show ?thesis by blast
qed

text \<open>
  C10. The claim is that every \<open>Extract\<close> call starts \<open>clamp(NumCPU, 2, 16)\<close> workers. A
  call that fails its set-up returns before the workers are started. What holds: a call
  that gets past its set-up (the process is Online, \<open>OpenProcess\<close> succeeds and, for V3,
  so does \<open>Is64Bit\<close>) starts \<open>clamp(NumCPU, 2, 16)\<close> workers: 2 below 2, 16 above 16,
  \<open>NumCPU\<close> in between; every other call starts none.
\<close>

theorem Extract_worker_count:
  "int (workers_started (V3_Extract fuel sys vd cancelled proc)) =
     (if Status proc = StatusOnline \<and>
         (\<exists>h. OpenProcess sys (PID proc) = Inr h \<and> (\<exists>is64Bit. Is64Bit sys h = Inr is64Bit))
      then (if NumCPU sys < 2 then 2 else if NumCPU sys > 16 then 16 else NumCPU sys)
      else 0) \<and>
   int (workers_started (V4_Extract sys cancelled proc received)) =
     (if Status proc = StatusOnline \<and> (\<exists>h. OpenProcess sys (PID proc) = Inr h)
      then (if NumCPU sys < 2 then 2 else if NumCPU sys > 16 then 16 else NumCPU sys)
      else 0) \<and>
   (if NumCPU sys < 2 then 2 else if NumCPU sys > 16 then 16 else NumCPU sys) =
     max 2 (min 16 (NumCPU sys))"
proof -
  have on: "Status proc = StatusOnline \<longleftrightarrow> Status proc \<noteq> StatusOffline"
    by (cases "Status proc") simp_all
  show ?thesis
    unfolding on
    by (cases "OpenProcess sys (PID proc)"; cases "Is64Bit sys (projr (OpenProcess sys (PID proc)))")
       (simp_all add: V3_Extract_def V4_Extract_def workerCount_def MaxWorkers_def Let_def)
qed

theorem Extract_worker_count_witness:
  "Status online1 = StatusOnline \<and> OpenProcess sys1 (PID online1) = Inr 7 \<and>
   Is64Bit sys1 7 = Inr True \<and> NumCPU sys1 = 8 \<and>
   workers_started (V3_Extract 3 sys1 vd1 False online1) = 8 \<and>
   workers_started (V4_Extract sys1 False online1 []) = 8"
proof -
  have f: "Status online1 = StatusOnline" "OpenProcess sys1 (PID online1) = Inr 7"
    "Is64Bit sys1 7 = Inr True" "NumCPU sys1 = 8"
    by (simp_all add: online1_def sys1_def)
  with Extract_worker_count [of 3 sys1 vd1 False online1 "[]"]
  have "int (workers_started (V3_Extract 3 sys1 vd1 False online1)) = 8 \<and>
        int (workers_started (V4_Extract sys1 False online1 [])) = 8"
    by auto
  with f show ?thesis by simp
qed

theorem Extract_offline_starts_no_worker:
  "workers_started (V3_Extract 3 sys1 vd1 False \<lparr>PID = 4242, Status = StatusOffline\<rparr>) = 0 \<and>
   workers_started (V4_Extract sys1 False \<lparr>PID = 4242, Status = StatusOffline\<rparr> []) = 0 \<and>
   max 2 (min 16 (NumCPU sys1)) = 8"
  by (simp add: V3_Extract_def V4_Extract_def sys1_def)


end
